theory Spec2Isabelle
  imports Main "HOL-Library.AList" "HOL-Library.Multiset"
begin

section \<open>Values shared by the whole bot\<close>

text \<open>
  The exceptions the modelled paths of \<^verbatim>\<open>bot.py\<close> can raise. \<open>ReError\<close> stands for the
  \<^verbatim>\<open>re.error\<close> that \<^verbatim>\<open>fnmatch\<close> raises on a pattern whose translation is not a regular
  expression; \<open>IOError\<close> and \<open>ValueError\<close> are what \<^verbatim>\<open>open\<close> and \<^verbatim>\<open>json.load\<close> raise.
\<close>

datatype error =
  AttributeError | AssertionError | KeyError | IndexError | TypeError | IOError | ValueError
| ReError

text \<open>
  A decoded JSON value, as \<^verbatim>\<open>json.load\<close> hands it over (floating point numbers left
  out). The decoder stores a server's \<^verbatim>\<open>port\<close> verbatim and only asks for the truth value
  of \<^verbatim>\<open>ssl\<close>, so both fields carry an arbitrary value.
\<close>

datatype json =
  JNull | JBool bool | JInt int | JStr string | JList "json list" | JDict "(string \<times> json) list"

text \<open>Python's truth value of such a value (\<^verbatim>\<open>if s["ssl"]:\<close>).\<close>

fun truthy :: "json \<Rightarrow> bool" where
  "truthy JNull = False"
| "truthy (JBool b) = b"
| "truthy (JInt i) = (i \<noteq> 0)"
| "truthy (JStr s) = (s \<noteq> [])"
| "truthy (JList vs) = (vs \<noteq> [])"
| "truthy (JDict kvs) = (kvs \<noteq> [])"

text \<open>The apostrophe of the messages, and a word between two of them (\<^verbatim>\<open>'%s'\<close>).\<close>

definition quoted :: "string \<Rightarrow> string" where
  "quoted s = CHR 0x27 # s @ [CHR 0x27]"

text \<open>
  \<^verbatim>\<open>str.split(sep)\<close> for a separator of one character: the pieces between the
  occurrences of the separator, empty pieces included, so the result is never empty.
\<close>

fun py_split :: "char \<Rightarrow> string \<Rightarrow> string list" where
  "py_split c [] = [[]]"
| "py_split c (x # xs) =
     (if x = c then [] # py_split c xs
      else (let r = py_split c xs in (x # hd r) # tl r))"

section \<open>ChannelState and Hostmask\<close>

record ChannelState =
  cs_name :: string
  cs_opped :: bool

text \<open>\<^verbatim>\<open>ChannelState.__init__\<close>: a fresh state is not opped.\<close>

definition new_ChannelState :: "string \<Rightarrow> ChannelState" where
  "new_ChannelState name = \<lparr>cs_name = name, cs_opped = False\<rparr>"

record Hostmask =
  hm_nickname :: string
  hm_username :: string
  hm_hostname :: string

text \<open>\<^verbatim>\<open>Hostmask.__str__\<close>, which \<^verbatim>\<open>getHostmask\<close> returns.\<close>

definition getHostmask :: "Hostmask \<Rightarrow> string" where
  "getHostmask h = hm_nickname h @ ''!'' @ hm_username h @ ''@'' @ hm_hostname h"

text \<open>\<^verbatim>\<open>Hostmask.parse\<close>: \<open>None\<close> unless both splits give exactly two pieces.\<close>

definition parse :: "string \<Rightarrow> Hostmask option" where
  "parse hostmask =
     (let tmp = py_split CHR ''@'' hostmask in
      if length tmp \<noteq> 2 then None
      else
        (let hostname = tmp ! 1;
             tmp2 = py_split CHR ''!'' (tmp ! 0) in
         if length tmp2 \<noteq> 2 then None
         else
           (let nickname = tmp2 ! 0;
                username = tmp2 ! 1 in
            Some \<lparr>hm_nickname = nickname, hm_username = username, hm_hostname = hostname\<rparr>)))"

section \<open>Permission model: User, Channel, Server\<close>

record User =
  u_name :: string
  u_mask :: string
  u_userClass :: string

text \<open>
  A channel holds its operators in a Python set of \<^verbatim>\<open>User\<close> objects, which are hashed by
  identity. The decoder only ever puts there the object the registry holds under a name, one
  per name, so identity and equality of the fields coincide; the set is the list of its
  members in insertion order, without duplicates.
\<close>

record Channel =
  ch_name :: string
  ch_operators :: "User list"

record Server =
  srv_hostname :: string
  srv_port :: json
  srv_ssl :: bool

text \<open>
  \<^verbatim>\<open>fnmatch(name, pattern)\<close> belongs to Python's standard library and is a parameter of
  the model: it answers whether the name matches the pattern, or raises.
\<close>

type_synonym fnmatch = "string \<Rightarrow> string \<Rightarrow> error + bool"

text \<open>\<^verbatim>\<open>User.match\<close>.\<close>

definition match :: "fnmatch \<Rightarrow> User \<Rightarrow> string \<Rightarrow> error + bool" where
  "match fm u other = fm other (u_mask u)"

text \<open>
  The loop of \<^verbatim>\<open>UserRegistry.findMatches\<close> and of
  \<^verbatim>\<open>ConfigurationService.findOperatorCandidates\<close>: every user whose mask matches is
  appended to \<open>r\<close>; an exception of the matcher ends the loop.
\<close>

fun collect_matches :: "fnmatch \<Rightarrow> string \<Rightarrow> User list \<Rightarrow> User list \<Rightarrow> error + User list" where
  "collect_matches fm other [] r = Inr r"
| "collect_matches fm other (user # rest) r =
     (case match fm user other of
        Inl e \<Rightarrow> Inl e
      | Inr b \<Rightarrow> collect_matches fm other rest (if b then r @ [user] else r))"

text \<open>
  \<^verbatim>\<open>UserRegistry\<close>: the dictionary \<^verbatim>\<open>users\<close> from name to \<^verbatim>\<open>User\<close>, as an association
  list with one pair per key. Storing under a key that is present replaces the value.
\<close>

type_synonym UserRegistry = "(string \<times> User) list"

definition registerUser :: "UserRegistry \<Rightarrow> User \<Rightarrow> UserRegistry" where
  "registerUser users user = AList.update (u_name user) user users"


section \<open>Configuration\<close>

record Configuration =
  nickname :: string
  username :: string
  realname :: string
  servers :: "Server list"
  channels :: "Channel list"
  userRegistry :: UserRegistry
  cfg_currentServer :: "Server option"
  valid :: bool
  errorMessages :: "string list"
  warningMessages :: "string list"

text \<open>\<^verbatim>\<open>Configuration.__init__\<close>.\<close>

definition new_Configuration :: Configuration where
  "new_Configuration =
     \<lparr>nickname = [], username = [], realname = [], servers = [], channels = [],
      userRegistry = [], cfg_currentServer = None, valid = True,
      errorMessages = [], warningMessages = []\<rparr>"

definition invalidate :: "Configuration \<Rightarrow> Configuration" where
  "invalidate config = config\<lparr>valid := False\<rparr>"

definition appendErrorMessage :: "Configuration \<Rightarrow> string \<Rightarrow> Configuration" where
  "appendErrorMessage config errorMessage =
     config\<lparr>errorMessages := errorMessages config @ [errorMessage]\<rparr>"

definition appendWarningMessage :: "Configuration \<Rightarrow> string \<Rightarrow> Configuration" where
  "appendWarningMessage config warningMessage =
     config\<lparr>warningMessages := warningMessages config @ [warningMessage]\<rparr>"

definition hasUser :: "Configuration \<Rightarrow> string \<Rightarrow> bool" where
  "hasUser config name = (map_of (userRegistry config) name \<noteq> None)"

definition findUser :: "Configuration \<Rightarrow> string \<Rightarrow> User option" where
  "findUser config name = map_of (userRegistry config) name"

definition addUser :: "Configuration \<Rightarrow> User \<Rightarrow> Configuration" where
  "addUser config user = config\<lparr>userRegistry := registerUser (userRegistry config) user\<rparr>"

definition getUsers :: "Configuration \<Rightarrow> User list" where
  "getUsers config = map snd (userRegistry config)"

definition addServer :: "Configuration \<Rightarrow> Server \<Rightarrow> Configuration" where
  "addServer config server = config\<lparr>servers := servers config @ [server]\<rparr>"

text \<open>
  \<^verbatim>\<open>channels\<close> is a Python set of \<^verbatim>\<open>Channel\<close> objects, hashed by identity, and every
  \<^verbatim>\<open>addChannel\<close> of the decoder adds a fresh object: nothing is ever merged, so the set is
  the list of the channels added.
\<close>

definition addChannel :: "Configuration \<Rightarrow> Channel \<Rightarrow> Configuration" where
  "addChannel config channel = config\<lparr>channels := channels config @ [channel]\<rparr>"

text \<open>\<^verbatim>\<open>Configuration.getChannel\<close>: the first channel of that name the iteration meets.\<close>

definition getChannel :: "Configuration \<Rightarrow> string \<Rightarrow> Channel option" where
  "getChannel config channel = find (\<lambda>c. channel = ch_name c) (channels config)"

section \<open>The policy document\<close>

text \<open>
  The document \<^verbatim>\<open>json.load\<close> returns, with the shape the decoder reads: a dictionary
  becomes a record of the keys the decoder looks at, each present (\<open>Some\<close>) or absent
  (\<open>None\<close>); names, masks, classes and host names are strings, operators a list of strings.
\<close>

record bot_section =
  bot_nickname :: "string option"
  bot_username :: "string option"
  bot_realname :: "string option"

record server_entry =
  se_hostname :: "string option"
  se_port :: "json option"
  se_ssl :: "json option"

record user_entry =
  ue_name :: "string option"
  ue_mask :: "string option"
  ue_class :: "string option"

record channel_entry =
  ce_name :: "string option"
  ce_operators :: "string list option"

record document =
  d_bot :: "bot_section option"
  d_servers :: "server_entry list option"
  d_users :: "user_entry list option"
  d_channels :: "channel_entry list option"

text \<open>\<^verbatim>\<open>key in obj\<close> for the top-level dictionary.\<close>

definition has_key :: "document \<Rightarrow> string \<Rightarrow> bool" where
  "has_key obj key =
     (if key = ''bot'' then d_bot obj \<noteq> None
      else if key = ''servers'' then d_servers obj \<noteq> None
      else if key = ''users'' then d_users obj \<noteq> None
      else if key = ''channels'' then d_channels obj \<noteq> None
      else False)"

section \<open>ConfigurationDecoder\<close>

text \<open>
  The three class attributes. They are Python sets; \<^verbatim>\<open>required_keys\<close> is iterated, in an
  order Python does not specify, so the properties below that involve the messages of that
  loop are stated up to their order.
\<close>

definition required_keys :: "string list" where
  "required_keys = [''bot'', ''servers'', ''users'', ''channels'']"

definition valid_user_classes :: "string set" where
  "valid_user_classes = {''admin'', ''user''}"

definition invalid_user_masks :: "string set" where
  "invalid_user_masks = {''*'', ''*@*'', ''*!*'', ''*!*@*''}"

definition lacks_key_message :: "string \<Rightarrow> string" where
  "lacks_key_message key = ''Configuration file lacks '' @ quoted key @ '' key.''"

text \<open>The sanity check: one pass of \<^verbatim>\<open>for key in self.required_keys\<close>.\<close>

definition check_key :: "document \<Rightarrow> string \<Rightarrow> Configuration \<Rightarrow> Configuration" where
  "check_key obj key config =
     (if \<not> has_key obj key
      then invalidate (appendErrorMessage config (lacks_key_message key))
      else config)"

text \<open>\<^verbatim>\<open>for s in obj["servers"]\<close>.\<close>

fun decode_servers :: "server_entry list \<Rightarrow> Configuration \<Rightarrow> Configuration" where
  "decode_servers [] config = config"
| "decode_servers (s # rest) config =
     (case se_hostname s of
        None \<Rightarrow>
          decode_servers rest
            (appendWarningMessage config ''Ignored server-entry due to lack of hostname.'')
      | Some hostname \<Rightarrow>
          (let port = (case se_port s of None \<Rightarrow> JInt 6667 | Some p \<Rightarrow> p);
               ssl = (case se_ssl s of None \<Rightarrow> False | Some v \<Rightarrow> truthy v)
           in decode_servers rest
                (addServer config \<lparr>srv_hostname = hostname, srv_port = port, srv_ssl = ssl\<rparr>)))"

text \<open>\<^verbatim>\<open>for u in obj["users"]\<close>.\<close>

fun decode_users :: "user_entry list \<Rightarrow> Configuration \<Rightarrow> Configuration" where
  "decode_users [] config = config"
| "decode_users (u # rest) config =
     (case ue_name u of
        None \<Rightarrow>
          decode_users rest
            (appendWarningMessage config ''Ignored user-entry due to lack of name.'')
      | Some name \<Rightarrow>
          (case ue_mask u of
             None \<Rightarrow>
               decode_users rest
                 (appendWarningMessage config ''Ignored user-entry due to lack of mask.'')
           | Some pattern \<Rightarrow>
               if pattern \<in> invalid_user_masks
               then decode_users rest
                      (appendWarningMessage config (''Insecure mask for user '' @ quoted name))
               else
                 (case ue_class u of
                    None \<Rightarrow>
                      decode_users rest
                        (addUser config \<lparr>u_name = name, u_mask = pattern, u_userClass = ''user''\<rparr>)
                  | Some cls \<Rightarrow>
                      if cls \<notin> valid_user_classes
                      then decode_users rest
                             (addUser
                                (appendWarningMessage config
                                   (''Ignoring invalid class '' @ quoted cls @ ''.''))
                                \<lparr>u_name = name, u_mask = pattern, u_userClass = ''user''\<rparr>)
                      else decode_users rest
                             (addUser config
                                \<lparr>u_name = name, u_mask = pattern, u_userClass = cls\<rparr>))))"

text \<open>
  \<^verbatim>\<open>for operator in c["operators"]\<close>: the configuration collects the warnings, the
  second component is the set \<^verbatim>\<open>operators\<close>. The source asks \<^verbatim>\<open>hasUser\<close> and then calls
  \<^verbatim>\<open>findUser\<close>, two lookups of the same key in the same dictionary: \<^verbatim>\<open>findUser\<close> gives
  \<open>None\<close> exactly when \<^verbatim>\<open>hasUser\<close> is false.
\<close>

fun decode_operators ::
  "string list \<Rightarrow> Configuration \<Rightarrow> User list \<Rightarrow> Configuration \<times> User list" where
  "decode_operators [] config operators = (config, operators)"
| "decode_operators (operator # rest) config operators =
     (case findUser config operator of
        None \<Rightarrow>
          decode_operators rest
            (appendWarningMessage config (''Unknown operator '' @ quoted operator)) operators
      | Some user \<Rightarrow> decode_operators rest config (List.insert user operators))"

text \<open>\<^verbatim>\<open>for c in obj["channels"]\<close>.\<close>

fun decode_channels :: "channel_entry list \<Rightarrow> Configuration \<Rightarrow> Configuration" where
  "decode_channels [] config = config"
| "decode_channels (c # rest) config =
     (case ce_name c of
        None \<Rightarrow>
          decode_channels rest
            (appendWarningMessage config ''Ignored channel-entry due to lack of name.'')
      | Some name \<Rightarrow>
          (case ce_operators c of
             None \<Rightarrow> decode_channels rest (addChannel config \<lparr>ch_name = name, ch_operators = []\<rparr>)
           | Some ops \<Rightarrow>
               (let (config', operators) = decode_operators ops config []
                in decode_channels rest
                     (addChannel config' \<lparr>ch_name = name, ch_operators = operators\<rparr>))))"

text \<open>The three checks on \<^verbatim>\<open>obj["bot"]\<close>.\<close>

definition check_bot :: "bot_section \<Rightarrow> Configuration \<Rightarrow> Configuration" where
  "check_bot b config =
     (let config1 = (if bot_nickname b = None
                     then invalidate (appendErrorMessage config ''Missing nickname.'')
                     else config);
          config2 = (if bot_username b = None
                     then invalidate (appendErrorMessage config1 ''Missing username.'')
                     else config1)
      in if bot_realname b = None
         then invalidate (appendErrorMessage config2 ''Missing realname'')
         else config2)"

text \<open>
  \<^verbatim>\<open>ConfigurationDecoder.decode\<close>. After the sanity check has left the configuration
  valid all four sections are present, and after the second check so are the three keys of
  \<^verbatim>\<open>bot\<close>: the branches for an absent section or key below are never taken, they stand
  where Python would look a key up.
\<close>

definition decode :: "document \<Rightarrow> Configuration" where
  "decode obj =
     (let config = fold (check_key obj) required_keys new_Configuration in
      if \<not> valid config then config
      else
        (case (d_bot obj, d_servers obj, d_users obj, d_channels obj) of
           (Some b, Some ss, Some us, Some cs) \<Rightarrow>
             (let config1 = check_bot b config in
              if \<not> valid config1 then config1
              else
                (case (bot_nickname b, bot_username b, bot_realname b) of
                   (Some n, Some u, Some r) \<Rightarrow>
                     decode_channels cs
                       (decode_users us
                          (decode_servers ss
                             (config1\<lparr>nickname := n, username := u, realname := r\<rparr>)))
                 | _ \<Rightarrow> config1))
         | _ \<Rightarrow> config))"

section \<open>ConfigurationEncoder\<close>

text \<open>
  \<^verbatim>\<open>ConfigurationEncoder.default\<close> on a \<^verbatim>\<open>Configuration\<close>. The users, the channels and the
  operators of a channel come out in the iteration order of a dictionary and of sets, which
  Python does not specify; here it is the order of the lists of the model.
\<close>

definition encode_server :: "Server \<Rightarrow> server_entry" where
  "encode_server s =
     \<lparr>se_hostname = Some (srv_hostname s), se_port = Some (srv_port s),
      se_ssl = Some (JBool (srv_ssl s))\<rparr>"

definition encode_user :: "User \<Rightarrow> user_entry" where
  "encode_user u =
     \<lparr>ue_name = Some (u_name u), ue_mask = Some (u_mask u), ue_class = Some (u_userClass u)\<rparr>"

definition encode_channel :: "Channel \<Rightarrow> channel_entry" where
  "encode_channel c =
     \<lparr>ce_name = Some (ch_name c), ce_operators = Some (map u_name (ch_operators c))\<rparr>"

definition encode :: "Configuration \<Rightarrow> document" where
  "encode config =
     \<lparr>d_bot = Some \<lparr>bot_nickname = Some (nickname config),
                    bot_username = Some (username config),
                    bot_realname = Some (realname config)\<rparr>,
      d_servers = Some (map encode_server (servers config)),
      d_users = Some (map encode_user (getUsers config)),
      d_channels = Some (map encode_channel (channels config))\<rparr>"

section \<open>ConfigurationLoader and ConfigurationService\<close>

text \<open>
  What \<^verbatim>\<open>open(filename)\<close> followed by \<^verbatim>\<open>json.load\<close> gives for a file name: the document,
  or the exception raised (no such file, no JSON in it).
\<close>

type_synonym reader = "string \<Rightarrow> error + document"

definition load :: "reader \<Rightarrow> string \<Rightarrow> error + Configuration" where
  "load rd name = (case rd name of Inl e \<Rightarrow> Inl e | Inr content \<Rightarrow> Inr (decode content))"

record ConfigurationService =
  filename :: string
  config :: Configuration
  currentServer :: "Server option"
  channelStates :: "string \<rightharpoonup> ChannelState"

text \<open>
  What the protocol library and the terminal receive: a line printed, and the calls of
  \<^verbatim>\<open>self.join\<close>, \<^verbatim>\<open>self.mode\<close> (channel, set, modes, user) and \<^verbatim>\<open>self.notice\<close>.
\<close>

datatype action =
  Print string
| Join string
| Mode string bool string string
| Notice string string

text \<open>
  The result of a method that changes the service: the service it leaves, what it has
  emitted, in order, and the exception it ended with, if any.
\<close>

record outcome =
  after :: ConfigurationService
  emitted :: "action list"
  raised :: "error option"

definition returns :: "ConfigurationService \<Rightarrow> action list \<Rightarrow> outcome" where
  "returns st acts = \<lparr>after = st, emitted = acts, raised = None\<rparr>"

definition raises :: "ConfigurationService \<Rightarrow> action list \<Rightarrow> error \<Rightarrow> outcome" where
  "raises st acts e = \<lparr>after = st, emitted = acts, raised = Some e\<rparr>"

text \<open>
  \<^verbatim>\<open>ConfigurationService.reload\<close>. On an invalid candidate the method returns at once:
  the warning its comment asks for is not written.
\<close>

definition reload :: "reader \<Rightarrow> ConfigurationService \<Rightarrow> outcome" where
  "reload rd st =
     (case load rd (filename st) of
        Inl e \<Rightarrow> raises st [] e
      | Inr candidate \<Rightarrow>
          if \<not> valid candidate then returns st []
          else returns (st\<lparr>config := candidate\<rparr>) [])"

text \<open>
  \<^verbatim>\<open>ConfigurationService.nextServer\<close>: \<^verbatim>\<open>popleft\<close> of an empty deque raises
  \<^verbatim>\<open>IndexError\<close>.
\<close>

definition nextServer :: "ConfigurationService \<Rightarrow> error + Server \<times> ConfigurationService" where
  "nextServer st =
     (case servers (config st) of
        [] \<Rightarrow> Inl IndexError
      | s # rest \<Rightarrow>
          Inr (s, st\<lparr>currentServer := Some s,
                     config := (config st)\<lparr>servers := rest @ [s]\<rparr>\<rparr>))"

definition getChannelState :: "ConfigurationService \<Rightarrow> string \<Rightarrow> ChannelState option" where
  "getChannelState st channel = channelStates st channel"

definition joinedChannel :: "ConfigurationService \<Rightarrow> string \<Rightarrow> ConfigurationService" where
  "joinedChannel st channel =
     st\<lparr>channelStates := (channelStates st)(channel \<mapsto> new_ChannelState channel)\<rparr>"

text \<open>\<^verbatim>\<open>del self.channelStates[channel]\<close> raises \<^verbatim>\<open>KeyError\<close> when the key is absent.\<close>

definition partedChannel :: "ConfigurationService \<Rightarrow> string \<Rightarrow> error + ConfigurationService" where
  "partedChannel st channel =
     (case channelStates st channel of
        None \<Rightarrow> Inl KeyError
      | Some cs \<Rightarrow> Inr (st\<lparr>channelStates := (channelStates st)(channel := None)\<rparr>))"

definition findOperatorCandidates ::
  "fnmatch \<Rightarrow> ConfigurationService \<Rightarrow> Hostmask \<Rightarrow> string \<Rightarrow> error + User list" where
  "findOperatorCandidates fm st hostmask channel =
     (case getChannel (config st) channel of
        None \<Rightarrow> Inr []
      | Some c \<Rightarrow> collect_matches fm (getHostmask hostmask) (ch_operators c) [])"

section \<open>Client\<close>

text \<open>\<^verbatim>\<open>sep.join(xs)\<close>.\<close>

fun py_join :: "string \<Rightarrow> string list \<Rightarrow> string" where
  "py_join sep [] = []"
| "py_join sep [x] = x"
| "py_join sep (x # y # ys) = x @ sep @ py_join sep (y # ys)"

text \<open>\<^verbatim>\<open>Client.op\<close>: \<^verbatim>\<open>self.mode(channel, True, "o", user = nick)\<close>.\<close>

definition op :: "string \<Rightarrow> string \<Rightarrow> action" where
  "op channel nick = Mode channel True ''o'' nick"

text \<open>\<^verbatim>\<open>Client.signedOn\<close>.\<close>

definition signedOn :: "ConfigurationService \<Rightarrow> outcome" where
  "signedOn st =
     returns st (Print ''>>> Signed On'' # map (\<lambda>channel. Join (ch_name channel)) (channels (config st)))"

text \<open>\<^verbatim>\<open>Client.joined\<close> and \<^verbatim>\<open>Client.userJoined\<close>.\<close>

definition joined :: "ConfigurationService \<Rightarrow> string \<Rightarrow> outcome" where
  "joined st channel = returns (joinedChannel st channel) [Print (''>>> Joining: '' @ channel)]"

definition userJoined :: "string \<Rightarrow> string \<Rightarrow> action list" where
  "userJoined user channel = [Print (''>>> '' @ user @ '' has joined '' @ channel)]"

text \<open>
  The loop \<^verbatim>\<open>for match in matches\<close> of \<^verbatim>\<open>considerOpping\<close>: a line for each match, and
  the flag \<^verbatim>\<open>op\<close>, set by any of them.
\<close>

fun report_matches :: "string \<Rightarrow> Hostmask \<Rightarrow> User list \<Rightarrow> bool \<Rightarrow> action list \<times> bool" where
  "report_matches nick hostmask [] flag = ([], flag)"
| "report_matches nick hostmask (m # rest) flag =
     (let line = Print (''>>> Found match for '' @ nick @ '': '' @ quoted (getHostmask hostmask)
                        @ '' matched '' @ quoted (u_mask m)
                        @ '' for bot user '' @ quoted (u_name m));
          (lines, flag') = report_matches nick hostmask rest True
      in (line # lines, flag'))"

text \<open>
  \<^verbatim>\<open>Client.considerOpping\<close>. It never changes the service: the result is what it emits and
  the exception of the matcher, if one ends it. An object of class \<^verbatim>\<open>ChannelState\<close> is
  always true, so \<^verbatim>\<open>not cs\<close> holds exactly when there is no entry for the channel.
\<close>

definition considerOpping ::
  "fnmatch \<Rightarrow> ConfigurationService \<Rightarrow> Hostmask \<Rightarrow> string \<Rightarrow> action list \<times> error option" where
  "considerOpping fm st hostmask channel =
     (case getChannelState st channel of
        None \<Rightarrow> ([], None)
      | Some cs \<Rightarrow>
          if \<not> cs_opped cs then ([], None)
          else
            (let considering = Print (''>>> Considering giving op to '' @ hm_nickname hostmask
                                      @ '' on '' @ channel)
             in case findOperatorCandidates fm st hostmask channel of
                  Inl e \<Rightarrow> ([considering], Some e)
                | Inr matches \<Rightarrow>
                    (let nick = hm_nickname hostmask;
                         (lines, flag) = report_matches nick hostmask matches False
                     in (considering # lines @ (if flag then [op channel nick] else []), None))))"

text \<open>
  \<^verbatim>\<open>Client.irc_JOIN\<close>. The result of \<^verbatim>\<open>Hostmask.parse\<close> is used unchecked: on \<open>None\<close> the
  call \<^verbatim>\<open>hostmask.getNickname()\<close> raises \<^verbatim>\<open>AttributeError\<close>.
\<close>

definition irc_JOIN :: "fnmatch \<Rightarrow> ConfigurationService \<Rightarrow> string \<Rightarrow> string list \<Rightarrow> outcome" where
  "irc_JOIN fm st prefix params =
     (if length params \<noteq> 1 then raises st [] AssertionError
      else
        (case parse prefix of
           None \<Rightarrow> raises st [] AttributeError
         | Some hostmask \<Rightarrow>
             (let channel = params ! 0;
                  nick = hm_nickname hostmask
              in if nick = nickname (config st) then joined st channel
                 else
                   (let (acts, exc) = considerOpping fm st hostmask channel
                    in \<lparr>after = st, emitted = userJoined nick channel @ acts, raised = exc\<rparr>))))"

text \<open>\<^verbatim>\<open>for channel in channels\<close> of \<^verbatim>\<open>ctcpQuery_OP\<close>; an exception ends the loop.\<close>

fun consider_each ::
  "fnmatch \<Rightarrow> ConfigurationService \<Rightarrow> Hostmask \<Rightarrow> string list \<Rightarrow> action list \<times> error option" where
  "consider_each fm st hostmask [] = ([], None)"
| "consider_each fm st hostmask (channel # rest) =
     (case considerOpping fm st hostmask channel of
        (acts, Some e) \<Rightarrow> (acts, Some e)
      | (acts, None) \<Rightarrow>
          (let (acts', exc) = consider_each fm st hostmask rest in (acts @ acts', exc)))"

text \<open>\<^verbatim>\<open>Client.ctcpQuery_OP\<close>; the message of a CTCP query may be \<^verbatim>\<open>None\<close>.\<close>

definition ctcpQuery_OP ::
  "fnmatch \<Rightarrow> ConfigurationService \<Rightarrow> string \<Rightarrow> string \<Rightarrow> string option \<Rightarrow> outcome" where
  "ctcpQuery_OP fm st user target message =
     (if target \<noteq> nickname (config st) then returns st []
      else
        (case message of
           None \<Rightarrow> returns st []
         | Some msg \<Rightarrow>
             (case parse user of
                None \<Rightarrow> returns st []
              | Some hostmask \<Rightarrow>
                  (let chans = py_split CHR '' '' msg;
                       line = Print (''>>> CTCP OP from '' @ quoted (getHostmask hostmask)
                                     @ '' for channels: '' @ py_join '', '' chans);
                       (acts, exc) = consider_each fm st hostmask chans
                   in \<lparr>after = st, emitted = line # acts, raised = exc\<rparr>))))"



text \<open>\<^verbatim>\<open>Client.kickedFrom\<close>: the line is printed before \<^verbatim>\<open>partedChannel\<close> may raise.\<close>

definition kickedFrom :: "ConfigurationService \<Rightarrow> string \<Rightarrow> string \<Rightarrow> string \<Rightarrow> outcome" where
  "kickedFrom st channel kicker message =
     (let line = Print (''>>> '' @ kicker @ '' kicked us from '' @ channel @ '': '' @ message)
      in case partedChannel st channel of
           Inl e \<Rightarrow> raises st [line] e
         | Inr st' \<Rightarrow> returns st' [line, Join channel])"

text \<open>
  \<^verbatim>\<open>Client.userOpped\<close> and \<^verbatim>\<open>Client.userDeopped\<close>. The target is the argument paired with
  the mode letter; the protocol library passes \<^verbatim>\<open>None\<close> for a mode without an argument, and
  \<^verbatim>\<open>None\<close> is not the nickname.
\<close>

definition setOpped ::
  "ConfigurationService \<Rightarrow> string option \<Rightarrow> string \<Rightarrow> bool \<Rightarrow> ConfigurationService" where
  "setOpped st target channel v =
     (if Some (nickname (config st)) = target
      then (case getChannelState st channel of
              None \<Rightarrow> st
            | Some cs \<Rightarrow> st\<lparr>channelStates := (channelStates st)(channel \<mapsto> cs\<lparr>cs_opped := v\<rparr>)\<rparr>)
      else st)"

definition userOpped ::
  "ConfigurationService \<Rightarrow> string \<Rightarrow> string option \<Rightarrow> string \<Rightarrow> ConfigurationService" where
  "userOpped st user target channel = setOpped st target channel True"

definition userDeopped ::
  "ConfigurationService \<Rightarrow> string \<Rightarrow> string option \<Rightarrow> string \<Rightarrow> ConfigurationService" where
  "userDeopped st user target channel = setOpped st target channel False"

text \<open>\<^verbatim>\<open>for mode in pairedModes\<close> of \<^verbatim>\<open>modeChanged\<close>.\<close>

fun paired_modes ::
  "string \<Rightarrow> string \<Rightarrow> bool \<Rightarrow> (char \<times> string option) list \<Rightarrow> ConfigurationService
     \<Rightarrow> ConfigurationService" where
  "paired_modes user channel added [] st = st"
| "paired_modes user channel added ((modeChar, target) # rest) st =
     (if modeChar = CHR ''o''
      then (if added then paired_modes user channel added rest (userOpped st user target channel)
            else paired_modes user channel added rest (userDeopped st user target channel))
      else paired_modes user channel added rest st)"

text \<open>
  The line \<^verbatim>\<open>modeChanged\<close> prints. \<^verbatim>\<open>not args or not args[0]\<close> holds for no argument and
  for a first argument that is \<^verbatim>\<open>None\<close> or empty; otherwise the arguments are joined, and
  \<^verbatim>\<open>' '.join(args)\<close> raises \<^verbatim>\<open>TypeError\<close> when one of them is \<^verbatim>\<open>None\<close>.
\<close>

definition mode_line ::
  "string \<Rightarrow> bool \<Rightarrow> string \<Rightarrow> string option list \<Rightarrow> string \<Rightarrow> error + string" where
  "mode_line channel added modes args modeChanger =
     (let c = (if added then ''+'' else ''-'')
      in if args = [] \<or> args ! 0 = None \<or> args ! 0 = Some []
         then Inr (''>>> Mode/'' @ channel @ '' ['' @ c @ modes @ ''] by '' @ modeChanger)
         else
           (case those args of
              None \<Rightarrow> Inl TypeError
            | Some words \<Rightarrow>
                Inr (''>>> Mode/'' @ channel @ '' ['' @ c @ modes @ '' '' @ py_join '' '' words
                     @ ''] by '' @ modeChanger)))"

text \<open>
  \<^verbatim>\<open>Client.modeChanged\<close>. A prefix that is no hostmask is kept as the name shown in the
  printed line; the mode letters are processed either way, after the line has been
  printed. An exception of the join leaves before anything is printed or changed.
\<close>

definition modeChanged ::
  "ConfigurationService \<Rightarrow> string \<Rightarrow> string \<Rightarrow> bool \<Rightarrow> string \<Rightarrow> string option list \<Rightarrow> outcome" where
  "modeChanged st user channel added modes args =
     (let modeChanger = (case parse user of None \<Rightarrow> user | Some hostmask \<Rightarrow> hm_nickname hostmask)
      in case mode_line channel added modes args modeChanger of
           Inl e \<Rightarrow> raises st [] e
         | Inr line \<Rightarrow> returns (paired_modes user channel added (zip modes args) st) [Print line])"

section \<open>Notions used to state the properties\<close>

text \<open>
  \<open>n\<close> consecutive calls of \<^verbatim>\<open>nextServer\<close>: the servers they return, in order, and the
  service they leave.
\<close>

fun nextServer_times ::
  "nat \<Rightarrow> ConfigurationService \<Rightarrow> error + Server list \<times> ConfigurationService" where
  "nextServer_times 0 st = Inr ([], st)"
| "nextServer_times (Suc n) st =
     (case nextServer st of
        Inl e \<Rightarrow> Inl e
      | Inr (s, st') \<Rightarrow>
          (case nextServer_times n st' of
             Inl e \<Rightarrow> Inl e
           | Inr (ss, st'') \<Rightarrow> Inr (s # ss, st'')))"

text \<open>
  The state \<^verbatim>\<open>joined-opped\<close> of a channel: there is a \<^verbatim>\<open>ChannelState\<close> for it and its flag
  is set.
\<close>

definition joined_opped :: "ConfigurationService \<Rightarrow> string \<Rightarrow> bool" where
  "joined_opped st channel =
     (case channelStates st channel of None \<Rightarrow> False | Some cs \<Rightarrow> cs_opped cs)"

text \<open>
  A matcher to run the examples with: shell patterns made of ordinary characters, \<^verbatim>\<open>*\<close>
  and \<^verbatim>\<open>?\<close>, on which it answers as \<^verbatim>\<open>fnmatch\<close> does. No general property depends on it.
\<close>

fun glob :: "string \<Rightarrow> string \<Rightarrow> bool" where
  "glob [] [] = True"
| "glob [] (c # cs) = False"
| "glob (p # ps) [] = (if p = CHR ''*'' then glob ps [] else False)"
| "glob (p # ps) (c # cs) =
     (if p = CHR ''*'' then (if glob ps (c # cs) then True else glob (p # ps) cs)
      else if p = CHR ''?'' \<or> p = c then glob ps cs
      else False)"

definition glob_fnmatch :: fnmatch where
  "glob_fnmatch name pat = Inr (glob pat name)"

text \<open>
  A user entry whose mask is one of the patterns that match everybody, and the warning
  the loop over the users records when it skips such an entry: an entry without a name is
  skipped for that reason before its mask is looked at.
\<close>

definition has_universal_mask :: "user_entry \<Rightarrow> bool" where
  "has_universal_mask u = (case ue_mask u of None \<Rightarrow> False | Some m \<Rightarrow> m \<in> invalid_user_masks)"

definition skip_warning :: "user_entry \<Rightarrow> string" where
  "skip_warning u =
     (case ue_name u of
        None \<Rightarrow> ''Ignored user-entry due to lack of name.''
      | Some name \<Rightarrow> ''Insecure mask for user '' @ quoted name)"

text \<open>
  What the decoder maintains of the registry: one pair per key, every user stored under
  its own name, with a mask that is not universal and a class that is valid.
\<close>

definition wf_registry :: "UserRegistry \<Rightarrow> bool" where
  "wf_registry reg \<longleftrightarrow>
     distinct (map fst reg)
     \<and> (\<forall>k u. map_of reg k = Some u \<longrightarrow>
           u_name u = k \<and> u_mask u \<notin> invalid_user_masks \<and> u_userClass u \<in> valid_user_classes)"

text \<open>
  What the round trip compares. A channel is seen as its name and the set of its operators.
  Two documents list the same when they agree on \<^verbatim>\<open>bot\<close> and on the servers, in order,
  and list the same user entries and the same channel entries, each channel entry with the
  same operator names, in any order: the encoder iterates over a dictionary and over sets,
  whose order Python does not fix.
\<close>

definition channel_view :: "Channel \<Rightarrow> string \<times> User set" where
  "channel_view c = (ch_name c, set (ch_operators c))"

definition entry_view :: "channel_entry \<Rightarrow> string option \<times> string multiset option" where
  "entry_view c = (ce_name c, map_option mset (ce_operators c))"

definition same_listing :: "document \<Rightarrow> document \<Rightarrow> bool" where
  "same_listing e d \<longleftrightarrow>
     d_bot e = d_bot d \<and> d_servers e = d_servers d
     \<and> map_option mset (d_users e) = map_option mset (d_users d)
     \<and> map_option (\<lambda>cs. mset (map entry_view cs)) (d_channels e)
         = map_option (\<lambda>cs. mset (map entry_view cs)) (d_channels d)"

text \<open>
  The channel the decoder makes of a channel entry, both seen through their views, given
  the registry the operator names are looked up in: nothing without a name, no operator
  without a list, and otherwise the users the listed names are registered for.
\<close>

definition view_target ::
  "UserRegistry \<Rightarrow> string option \<times> string multiset option \<Rightarrow> (string \<times> User set) option" where
  "view_target reg v =
     (case v of
        (None, _) \<Rightarrow> None
      | (Some n, None) \<Rightarrow> Some (n, {})
      | (Some n, Some ops) \<Rightarrow> Some (n, {u. \<exists>x \<in># ops. map_of reg x = Some u}))"

section \<open>Example documents and services\<close>

text \<open>
  A policy in the shape of the scenarios: the bot \<^verbatim>\<open>bot\<close>, three servers, the users
  \<^verbatim>\<open>alice\<close> (mask \<^verbatim>\<open>alice!*@trusted.example\<close>) and \<^verbatim>\<open>bob\<close>, an entry \<^verbatim>\<open>eve\<close> whose mask
  matches everybody, and the channels \<^verbatim>\<open>#test\<close> and \<^verbatim>\<open>#ops\<close>.
\<close>

definition example_bot :: bot_section where
  "example_bot =
     \<lparr>bot_nickname = Some ''bot'', bot_username = Some ''ircbot'', bot_realname = Some ''IRC Bot''\<rparr>"

definition example_servers :: "server_entry list" where
  "example_servers =
     [\<lparr>se_hostname = Some ''a.example'', se_port = None, se_ssl = None\<rparr>,
      \<lparr>se_hostname = Some ''b.example'', se_port = Some (JInt 6697), se_ssl = Some (JBool True)\<rparr>,
      \<lparr>se_hostname = Some ''c.example'', se_port = Some (JInt 7000), se_ssl = Some (JInt 0)\<rparr>]"

definition example_users :: "user_entry list" where
  "example_users =
     [\<lparr>ue_name = Some ''alice'', ue_mask = Some ''alice!*@trusted.example'',
       ue_class = Some ''admin''\<rparr>,
      \<lparr>ue_name = Some ''eve'', ue_mask = Some ''*'', ue_class = None\<rparr>,
      \<lparr>ue_name = Some ''bob'', ue_mask = Some ''bob!*@*.example.org'', ue_class = None\<rparr>]"

definition example_channels :: "channel_entry list" where
  "example_channels =
     [\<lparr>ce_name = Some ''#test'', ce_operators = Some [''alice'', ''eve'']\<rparr>,
      \<lparr>ce_name = Some ''#ops'', ce_operators = Some [''bob'', ''alice'']\<rparr>]"

definition example_document :: document where
  "example_document =
     \<lparr>d_bot = Some example_bot, d_servers = Some example_servers,
      d_users = Some example_users, d_channels = Some example_channels\<rparr>"

text \<open>The same document without \<^verbatim>\<open>bot.nickname\<close>, and without the sections \<^verbatim>\<open>bot\<close> and \<^verbatim>\<open>servers\<close>.\<close>

definition document_without_nickname :: document where
  "document_without_nickname =
     example_document\<lparr>d_bot := Some (example_bot\<lparr>bot_nickname := None\<rparr>)\<rparr>"

definition document_without_sections :: document where
  "document_without_sections = example_document\<lparr>d_bot := None, d_servers := None\<rparr>"

text \<open>
  A service that runs on the example policy, read from \<^verbatim>\<open>bot.json\<close>, before the bot has
  joined a channel; then in \<^verbatim>\<open>#test\<close> without operator status, and with it.
\<close>

definition example_service :: ConfigurationService where
  "example_service =
     \<lparr>filename = ''bot.json'', config = decode example_document, currentServer = None,
      channelStates = Map.empty\<rparr>"

definition service_unopped :: ConfigurationService where
  "service_unopped = joinedChannel example_service ''#test''"

definition service_opped :: ConfigurationService where
  "service_opped = userOpped service_unopped ''irc.example.net'' (Some ''bot'') ''#test''"

text \<open>The two users the example policy registers.\<close>

definition alice :: User where
  "alice = \<lparr>u_name = ''alice'', u_mask = ''alice!*@trusted.example'', u_userClass = ''admin''\<rparr>"

definition bob :: User where
  "bob = \<lparr>u_name = ''bob'', u_mask = ''bob!*@*.example.org'', u_userClass = ''user''\<rparr>"

text \<open>
  What the encoder may write for the decoded example policy when the dictionary and the
  sets are iterated in another order than the lists of the model.
\<close>

definition reordered_document :: document where
  "reordered_document =
     \<lparr>d_bot = Some example_bot,
      d_servers = Some
        [\<lparr>se_hostname = Some ''a.example'', se_port = Some (JInt 6667),
          se_ssl = Some (JBool False)\<rparr>,
         \<lparr>se_hostname = Some ''b.example'', se_port = Some (JInt 6697),
          se_ssl = Some (JBool True)\<rparr>,
         \<lparr>se_hostname = Some ''c.example'', se_port = Some (JInt 7000),
          se_ssl = Some (JBool False)\<rparr>],
      d_users = Some [encode_user bob, encode_user alice],
      d_channels = Some
        [\<lparr>ce_name = Some ''#ops'', ce_operators = Some [''bob'', ''alice'']\<rparr>,
         \<lparr>ce_name = Some ''#test'', ce_operators = Some [''alice'']\<rparr>]\<rparr>"

text \<open>A file system that holds one document under \<^verbatim>\<open>bot.json\<close> and nothing else.\<close>

definition disk :: "document \<Rightarrow> reader" where
  "disk d name = (if name = ''bot.json'' then Inr d else Inl IOError)"

section \<open>Properties of the hostmask parser\<close>

lemma py_split_not_Nil: "py_split c s \<noteq> []"
  by (cases s) (simp_all add: Let_def)

lemma py_split_no_sep: "c \<notin> set s \<Longrightarrow> py_split c s = [s]"
  by (induction s) (auto simp: Let_def)

lemma py_split_at_sep: "c \<notin> set a \<Longrightarrow> py_split c (a @ c # b) = a # py_split c b"
  by (induction a) (auto simp: Let_def)

lemma py_split_single: "py_split c s = [a] \<Longrightarrow> s = a \<and> c \<notin> set a"
proof (induction s arbitrary: a)
  case Nil
  then show ?case by simp
next
  case (Cons x xs)
  show ?case
  proof (cases "x = c")
    case True
    with Cons.prems show ?thesis by (simp add: py_split_not_Nil)
  next
    case False
    obtain y ys where r: "py_split c xs = y # ys"
      using py_split_not_Nil [of c xs] by (cases "py_split c xs") auto
    with False Cons.prems have "a = x # y" and "ys = []" by (simp_all add: Let_def)
    with r Cons.IH [of y] False show ?thesis by simp
  qed
qed

lemma py_split_pair:
  "py_split c s = [a, b] \<Longrightarrow> s = a @ c # b \<and> c \<notin> set a \<and> c \<notin> set b"
proof (induction s arbitrary: a)
  case Nil
  then show ?case by simp
next
  case (Cons x xs)
  show ?case
  proof (cases "x = c")
    case True
    with Cons.prems have "a = []" and "py_split c xs = [b]" by simp_all
    with True py_split_single [of c xs b] show ?thesis by simp
  next
    case False
    obtain y ys where r: "py_split c xs = y # ys"
      using py_split_not_Nil [of c xs] by (cases "py_split c xs") auto
    with False Cons.prems have "a = x # y" and "ys = [b]" by (simp_all add: Let_def)
    with r Cons.IH [of y] False show ?thesis by simp
  qed
qed

lemma length_two_cases: "length xs = 2 \<Longrightarrow> \<exists>a b. xs = [a, b]"
  by (cases xs; cases "tl xs"; cases "tl (tl xs)") auto

lemma parse_Some_D:
  assumes "parse s = Some h"
  shows "s = hm_nickname h @ ''!'' @ hm_username h @ ''@'' @ hm_hostname h"
    and "CHR ''!'' \<notin> set (hm_nickname h)" and "CHR ''@'' \<notin> set (hm_nickname h)"
    and "CHR ''!'' \<notin> set (hm_username h)" and "CHR ''@'' \<notin> set (hm_username h)"
    and "CHR ''@'' \<notin> set (hm_hostname h)"
proof -
  from assms have l1: "length (py_split CHR ''@'' s) = 2"
    by (auto simp: parse_def Let_def split: if_splits)
  then obtain p host where sp1: "py_split CHR ''@'' s = [p, host]"
    using length_two_cases by blast
  from assms sp1 have l2: "length (py_split CHR ''!'' p) = 2"
    by (auto simp: parse_def Let_def split: if_splits)
  then obtain n u where sp2: "py_split CHR ''!'' p = [n, u]"
    using length_two_cases by blast
  from assms sp1 sp2 have h: "h = \<lparr>hm_nickname = n, hm_username = u, hm_hostname = host\<rparr>"
    by (simp add: parse_def Let_def)
  from py_split_pair [OF sp1] have s: "s = p @ CHR ''@'' # host"
    and np: "CHR ''@'' \<notin> set p" and nh: "CHR ''@'' \<notin> set host" by simp_all
  from py_split_pair [OF sp2] have p: "p = n @ CHR ''!'' # u"
    and nn: "CHR ''!'' \<notin> set n" and nu: "CHR ''!'' \<notin> set u" by simp_all
  show "s = hm_nickname h @ ''!'' @ hm_username h @ ''@'' @ hm_hostname h"
    using s p h by simp
  show "CHR ''!'' \<notin> set (hm_nickname h)" using nn h by simp
  show "CHR ''@'' \<notin> set (hm_nickname h)" using np p h by simp
  show "CHR ''!'' \<notin> set (hm_username h)" using nu h by simp
  show "CHR ''@'' \<notin> set (hm_username h)" using np p h by simp
  show "CHR ''@'' \<notin> set (hm_hostname h)" using nh h by simp
qed

lemma parse_render:
  assumes "CHR ''!'' \<notin> set n" and "CHR ''@'' \<notin> set n"
    and "CHR ''!'' \<notin> set u" and "CHR ''@'' \<notin> set u" and "CHR ''@'' \<notin> set host"
  shows "parse (n @ ''!'' @ u @ ''@'' @ host)
           = Some \<lparr>hm_nickname = n, hm_username = u, hm_hostname = host\<rparr>"
proof -
  have a: "py_split CHR ''@'' ((n @ CHR ''!'' # u) @ CHR ''@'' # host) = [n @ CHR ''!'' # u, host]"
    using assms by (subst py_split_at_sep) (simp_all add: py_split_no_sep)
  have b: "py_split CHR ''!'' (n @ CHR ''!'' # u) = [n, u]"
    using assms by (subst py_split_at_sep) (simp_all add: py_split_no_sep)
  have c: "n @ ''!'' @ u @ ''@'' @ host = (n @ CHR ''!'' # u) @ CHR ''@'' # host" by simp
  show ?thesis
    unfolding c parse_def Let_def a using b by simp
qed

text \<open>
  C9 (counterexample). The string \<^verbatim>\<open>!@\<close> has exactly one \<^verbatim>\<open>@\<close> and, before it,
  exactly one \<^verbatim>\<open>!\<close>, so \<^verbatim>\<open>Hostmask.parse\<close> accepts it; the nickname, the username and
  the hostname of the result are all the empty string.
\<close>

theorem parse_accepts_empty_parts:
  "parse ''!@'' = Some \<lparr>hm_nickname = [], hm_username = [], hm_hostname = []\<rparr>"
  by (simp add: parse_def Let_def)

text \<open>
  C9 (amended). \<^verbatim>\<open>Hostmask.parse\<close> accepts a string exactly when it is
  \<^verbatim>\<open>nickname!username@hostname\<close> for a nickname and a username that contain neither
  \<^verbatim>\<open>!\<close> nor \<^verbatim>\<open>@\<close> and a hostname that contains no \<^verbatim>\<open>@\<close>, and these three pieces are
  the fields of the result. Nothing more is checked: each piece may be empty.
\<close>

theorem parse_accepts_iff:
  "parse s = Some h \<longleftrightarrow>
     s = hm_nickname h @ ''!'' @ hm_username h @ ''@'' @ hm_hostname h
     \<and> CHR ''!'' \<notin> set (hm_nickname h) \<and> CHR ''@'' \<notin> set (hm_nickname h)
     \<and> CHR ''!'' \<notin> set (hm_username h) \<and> CHR ''@'' \<notin> set (hm_username h)
     \<and> CHR ''@'' \<notin> set (hm_hostname h)"
proof
  assume "parse s = Some h"
  from parse_Some_D [OF this] show
    "s = hm_nickname h @ ''!'' @ hm_username h @ ''@'' @ hm_hostname h
     \<and> CHR ''!'' \<notin> set (hm_nickname h) \<and> CHR ''@'' \<notin> set (hm_nickname h)
     \<and> CHR ''!'' \<notin> set (hm_username h) \<and> CHR ''@'' \<notin> set (hm_username h)
     \<and> CHR ''@'' \<notin> set (hm_hostname h)"
    by blast
next
  assume r: "s = hm_nickname h @ ''!'' @ hm_username h @ ''@'' @ hm_hostname h
     \<and> CHR ''!'' \<notin> set (hm_nickname h) \<and> CHR ''@'' \<notin> set (hm_nickname h)
     \<and> CHR ''!'' \<notin> set (hm_username h) \<and> CHR ''@'' \<notin> set (hm_username h)
     \<and> CHR ''@'' \<notin> set (hm_hostname h)"
  then have "parse s
      = Some \<lparr>hm_nickname = hm_nickname h, hm_username = hm_username h,
              hm_hostname = hm_hostname h\<rparr>"
    using parse_render [of "hm_nickname h" "hm_username h" "hm_hostname h"] by simp
  then show "parse s = Some h" by simp
qed

theorem parse_accepts_iff_witness:
  "parse ''alice!a@trusted.example''
     = Some \<lparr>hm_nickname = ''alice'', hm_username = ''a'', hm_hostname = ''trusted.example''\<rparr>"
  using parse_accepts_iff [of "''alice!a@trusted.example''"
      "\<lparr>hm_nickname = ''alice'', hm_username = ''a'', hm_hostname = ''trusted.example''\<rparr>"]
  by simp

section \<open>Evaluating the examples\<close>

lemmas codec_defs =
  decode_def required_keys_def check_key_def has_key_def new_Configuration_def check_bot_def
  addServer_def addUser_def addChannel_def appendWarningMessage_def appendErrorMessage_def
  invalidate_def registerUser_def invalid_user_masks_def valid_user_classes_def findUser_def
  hasUser_def getUsers_def lacks_key_message_def quoted_def Let_def

lemmas example_defs =
  example_document_def example_bot_def example_servers_def example_users_def
  example_channels_def document_without_nickname_def document_without_sections_def

lemma decode_example_document:
  "decode example_document =
     \<lparr>nickname = ''bot'', username = ''ircbot'', realname = ''IRC Bot'',
      servers = [\<lparr>srv_hostname = ''a.example'', srv_port = JInt 6667, srv_ssl = False\<rparr>,
                 \<lparr>srv_hostname = ''b.example'', srv_port = JInt 6697, srv_ssl = True\<rparr>,
                 \<lparr>srv_hostname = ''c.example'', srv_port = JInt 7000, srv_ssl = False\<rparr>],
      channels = [\<lparr>ch_name = ''#test'', ch_operators = [alice]\<rparr>,
                  \<lparr>ch_name = ''#ops'', ch_operators = [alice, bob]\<rparr>],
      userRegistry = [(''alice'', alice), (''bob'', bob)],
      cfg_currentServer = None, valid = True, errorMessages = [],
      warningMessages = [''Insecure mask for user '' @ quoted ''eve'',
                         ''Unknown operator '' @ quoted ''eve'']\<rparr>"
  by (simp add: codec_defs example_defs alice_def bob_def)

lemma decode_document_without_nickname:
  "decode document_without_nickname =
     new_Configuration\<lparr>valid := False, errorMessages := [''Missing nickname.'']\<rparr>"
  by (simp add: codec_defs example_defs)

lemma decode_document_without_sections:
  "decode document_without_sections =
     new_Configuration\<lparr>valid := False,
        errorMessages := [lacks_key_message ''bot'', lacks_key_message ''servers'']\<rparr>"
  by (simp add: codec_defs example_defs)

section \<open>The sanity check of the decoder\<close>

lemma fold_check_key:
  "fold (check_key obj) ks cfg =
     cfg\<lparr>valid := valid cfg \<and> (\<forall>k \<in> set ks. has_key obj k),
            errorMessages := errorMessages cfg
               @ map lacks_key_message (filter (\<lambda>k. \<not> has_key obj k) ks)\<rparr>"
  by (induction ks arbitrary: cfg)
     (auto simp: check_key_def invalidate_def appendErrorMessage_def)

text \<open>
  C6. A document that lacks one or more of the sections \<^verbatim>\<open>bot\<close>, \<^verbatim>\<open>servers\<close>, \<^verbatim>\<open>users\<close>,
  \<^verbatim>\<open>channels\<close> decodes to an invalid configuration whose error messages are, up to their
  order, one message for each missing section (all of them, not only the first), and
  which has no server, no user and no channel.
\<close>

theorem decode_missing_sections:
  assumes "\<exists>key \<in> set required_keys. \<not> has_key obj key"
  shows "\<not> valid (decode obj)
     \<and> mset (errorMessages (decode obj))
         = mset (map lacks_key_message (filter (\<lambda>key. \<not> has_key obj key) required_keys))
     \<and> servers (decode obj) = [] \<and> getUsers (decode obj) = [] \<and> channels (decode obj) = []"
proof -
  have "decode obj = fold (check_key obj) required_keys new_Configuration"
    using assms by (simp add: decode_def fold_check_key Let_def)
  then show ?thesis
    using assms by (simp add: fold_check_key new_Configuration_def getUsers_def)
qed

theorem decode_missing_sections_witness:
  "(\<exists>key \<in> set required_keys. \<not> has_key document_without_sections key)
   \<and> \<not> valid (decode document_without_sections)
   \<and> mset (errorMessages (decode document_without_sections))
       = {#lacks_key_message ''servers'', lacks_key_message ''bot''#}
   \<and> servers (decode document_without_sections) = []
   \<and> getUsers (decode document_without_sections) = []
   \<and> channels (decode document_without_sections) = []"
proof -
  have h: "\<exists>key \<in> set required_keys. \<not> has_key document_without_sections key"
    by (simp add: required_keys_def has_key_def example_defs)
  have f: "filter (\<lambda>key. \<not> has_key document_without_sections key) required_keys
             = [''bot'', ''servers'']"
    by (simp add: required_keys_def has_key_def example_defs)
  from decode_missing_sections [OF h] show ?thesis using h unfolding f by simp
qed

section \<open>Reloading\<close>

text \<open>
  C2. When the candidate document of a reload decodes to an invalid configuration, the
  service after the call is the service before it, its configuration included; only a
  valid candidate replaces the configuration, and nothing else of the service changes.
\<close>

theorem reload_keeps_or_replaces:
  "rd (filename st) = Inr d \<Longrightarrow>
     after (reload rd st) = (if valid (decode d) then st\<lparr>config := decode d\<rparr> else st)"
  by (simp add: reload_def load_def returns_def)

theorem reload_keeps_or_replaces_witness:
  "disk document_without_nickname (filename example_service) = Inr document_without_nickname
   \<and> \<not> valid (decode document_without_nickname)
   \<and> config (after (reload (disk document_without_nickname) example_service))
       = decode example_document
   \<and> disk example_document (filename service_opped) = Inr example_document
   \<and> valid (decode example_document)
   \<and> config (after (reload (disk example_document) service_opped)) = decode example_document"
proof -
  have a: "disk document_without_nickname (filename example_service)
             = Inr document_without_nickname"
    by (simp add: disk_def example_service_def)
  have b: "disk example_document (filename service_opped) = Inr example_document"
    by (simp add: disk_def service_opped_def service_unopped_def example_service_def
        userOpped_def setOpped_def joinedChannel_def getChannelState_def)
  have c: "\<not> valid (decode document_without_nickname)"
    by (simp add: decode_document_without_nickname)
  have d: "valid (decode example_document)"
    by (simp add: decode_example_document)
  show ?thesis
    using reload_keeps_or_replaces
            [of "disk document_without_nickname" example_service document_without_nickname, OF a]
          reload_keeps_or_replaces
            [of "disk example_document" service_opped example_document, OF b] a b c d
    by (simp add: example_service_def)
qed

text \<open>
  C3 (what the code does). A reload whose candidate is invalid emits nothing at all: no
  line is printed, no notice is sent, and no exception is raised, so the failure reaches
  nobody. The comment in \<^verbatim>\<open>reload\<close> asks for the warning that is missing.
\<close>

theorem reload_invalid_emits_nothing:
  "rd (filename st) = Inr d \<Longrightarrow> \<not> valid (decode d) \<Longrightarrow>
     emitted (reload rd st) = [] \<and> raised (reload rd st) = None"
  by (simp add: reload_def load_def returns_def)

theorem reload_invalid_emits_nothing_witness:
  "disk document_without_nickname (filename example_service) = Inr document_without_nickname
   \<and> \<not> valid (decode document_without_nickname)
   \<and> emitted (reload (disk document_without_nickname) example_service) = []
   \<and> raised (reload (disk document_without_nickname) example_service) = None"
proof -
  have a: "disk document_without_nickname (filename example_service)
             = Inr document_without_nickname"
    by (simp add: disk_def example_service_def)
  have c: "\<not> valid (decode document_without_nickname)"
    by (simp add: decode_document_without_nickname)
  from reload_invalid_emits_nothing
         [of "disk document_without_nickname" example_service document_without_nickname, OF a c]
       a c
  show ?thesis by simp
qed

section \<open>The server rotation\<close>

lemma nextServer_rotates:
  "servers (config st) = s # rest \<Longrightarrow>
   nextServer st
     = Inr (s, st\<lparr>currentServer := Some s, config := (config st)\<lparr>servers := rest @ [s]\<rparr>\<rparr>)"
  by (simp add: nextServer_def)

text \<open>
  C8. With the server list \<open>[A, B, C]\<close>, four consecutive calls of \<^verbatim>\<open>nextServer\<close> return
  \<open>A\<close>, \<open>B\<close>, \<open>C\<close> and \<open>A\<close> again, each call moving the head of the sequence to its end.
\<close>

theorem nextServer_round_robin:
  assumes "servers (config st) = [A, B, C]"
  shows "\<exists>st'. nextServer_times 4 st = Inr ([A, B, C, A], st')
               \<and> servers (config st') = [B, C, A]"
  using assms by (simp add: eval_nat_numeral nextServer_def)

theorem nextServer_round_robin_witness:
  "servers (config example_service) = servers (decode example_document)
   \<and> map_sum id fst (nextServer_times 4 example_service)
       = Inr [\<lparr>srv_hostname = ''a.example'', srv_port = JInt 6667, srv_ssl = False\<rparr>,
              \<lparr>srv_hostname = ''b.example'', srv_port = JInt 6697, srv_ssl = True\<rparr>,
              \<lparr>srv_hostname = ''c.example'', srv_port = JInt 7000, srv_ssl = False\<rparr>,
              \<lparr>srv_hostname = ''a.example'', srv_port = JInt 6667, srv_ssl = False\<rparr>]"
proof -
  have h: "servers (config example_service)
      = [\<lparr>srv_hostname = ''a.example'', srv_port = JInt 6667, srv_ssl = False\<rparr>,
         \<lparr>srv_hostname = ''b.example'', srv_port = JInt 6697, srv_ssl = True\<rparr>,
         \<lparr>srv_hostname = ''c.example'', srv_port = JInt 7000, srv_ssl = False\<rparr>]"
    by (simp add: example_service_def decode_example_document)
  from nextServer_round_robin [OF h] show ?thesis
    by (auto simp: example_service_def)
qed

section \<open>Leaving a channel\<close>

text \<open>
  C10. \<^verbatim>\<open>partedChannel\<close> removes the state of a channel only when there is one: for a
  channel without a \<^verbatim>\<open>ChannelState\<close> it raises \<^verbatim>\<open>KeyError\<close>, and so does \<^verbatim>\<open>kickedFrom\<close>,
  after its printed line and before any rejoin; with a state, the state is removed and the
  rejoin is sent.
\<close>

theorem kick_without_state_raises:
  "(channelStates st channel = None \<longrightarrow>
      partedChannel st channel = Inl KeyError
      \<and> kickedFrom st channel kicker message
          = raises st [Print (''>>> '' @ kicker @ '' kicked us from '' @ channel @ '': ''
                              @ message)] KeyError)
   \<and> (channelStates st channel \<noteq> None \<longrightarrow>
      partedChannel st channel = Inr (st\<lparr>channelStates := (channelStates st)(channel := None)\<rparr>)
      \<and> kickedFrom st channel kicker message
          = returns (st\<lparr>channelStates := (channelStates st)(channel := None)\<rparr>)
              [Print (''>>> '' @ kicker @ '' kicked us from '' @ channel @ '': '' @ message),
               Join channel])"
  by (auto simp: partedChannel_def kickedFrom_def)

theorem kick_without_state_raises_witness:
  "channelStates example_service ''#test'' = None
   \<and> raised (kickedFrom example_service ''#test'' ''mallory'' ''bye'') = Some KeyError
   \<and> channelStates service_unopped ''#test'' \<noteq> None
   \<and> raised (kickedFrom service_unopped ''#test'' ''mallory'' ''bye'') = None
   \<and> emitted (kickedFrom service_unopped ''#test'' ''mallory'' ''bye'')
       = [Print ''>>> mallory kicked us from #test: bye'', Join ''#test'']"
proof -
  have a: "channelStates example_service ''#test'' = None"
    by (simp add: example_service_def)
  have b: "channelStates service_unopped ''#test'' \<noteq> None"
    by (simp add: service_unopped_def joinedChannel_def)
  from kick_without_state_raises [of example_service "''#test''" "''mallory''" "''bye''"]
    kick_without_state_raises [of service_unopped "''#test''" "''mallory''" "''bye''"] a b
  show ?thesis by (simp add: raises_def returns_def)
qed

section \<open>Auto-op is gated by the channel state\<close>

lemma report_matches_prints:
  "report_matches nick hostmask ms flag = (lines, flag') \<Longrightarrow> Mode ch s m n \<notin> set lines"
  by (induction ms arbitrary: flag lines flag') (auto simp: Let_def split: prod.splits)

lemma considerOpping_Mode:
  assumes "considerOpping fm st hostmask channel = (acts, exc)"
    and "Mode ch s m n \<in> set acts"
  shows "ch = channel \<and> joined_opped st channel \<and> s \<and> m = ''o'' \<and> n = hm_nickname hostmask"
  using assms
  by (auto simp: considerOpping_def joined_opped_def getChannelState_def Let_def op_def
      split: option.splits if_splits sum.splits prod.splits dest: report_matches_prints)

lemma consider_each_Mode:
  assumes "consider_each fm st hostmask chans = (acts, exc)"
    and "Mode ch s m n \<in> set acts"
  shows "ch \<in> set chans \<and> joined_opped st ch \<and> s \<and> m = ''o'' \<and> n = hm_nickname hostmask"
  using assms
proof (induction chans arbitrary: acts exc)
  case Nil
  then show ?case by simp
next
  case (Cons c cs)
  then show ?case
    by (auto split: prod.splits option.splits dest: considerOpping_Mode)
qed

text \<open>
  C1. Whatever the prefix, the parameters and the matcher, a mode command (the only one
  the client sends is the grant of operator status) is among what \<^verbatim>\<open>irc_JOIN\<close> emits
  only for the channel that was joined, for the nickname of the prefix, which is not the
  bot's own, and only if that channel is in the state \<^verbatim>\<open>joined-opped\<close>: a
  \<^verbatim>\<open>ChannelState\<close> exists for it and its flag is set. \<^verbatim>\<open>ctcpQuery_OP\<close> emits one only
  for a channel named in the query, in that same state, for the nickname of the sender,
  the query being addressed to the bot. So when the joined channel has no state, or a state
  whose flag is unset, the join produces no mode command at all, for any hostmask, and a
  query produces none for such a channel.
\<close>

theorem op_only_when_joined_opped:
  "(Mode ch s m n \<in> set (emitted (irc_JOIN fm st prefix params)) \<longrightarrow>
      params = [ch] \<and> joined_opped st ch \<and> s \<and> m = ''o''
      \<and> map_option hm_nickname (parse prefix) = Some n \<and> n \<noteq> nickname (config st))
   \<and> (Mode ch s m n \<in> set (emitted (ctcpQuery_OP fm st user target message)) \<longrightarrow>
      (case message of None \<Rightarrow> False | Some msg \<Rightarrow> ch \<in> set (py_split CHR '' '' msg))
      \<and> joined_opped st ch \<and> s \<and> m = ''o''
      \<and> map_option hm_nickname (parse user) = Some n \<and> target = nickname (config st))
   \<and> (\<not> joined_opped st channel \<longrightarrow>
        Mode ch s m n \<notin> set (emitted (irc_JOIN fm st prefix [channel])))
   \<and> (\<not> joined_opped st channel \<longrightarrow>
        Mode channel s m n \<notin> set (emitted (ctcpQuery_OP fm st user target message)))"
proof -
  have join: "params = [ch] \<and> joined_opped st ch \<and> s \<and> m = ''o''
      \<and> map_option hm_nickname (parse prefix) = Some n \<and> n \<noteq> nickname (config st)"
    if "Mode ch s m n \<in> set (emitted (irc_JOIN fm st prefix params))" for ch params
  proof -
    from that have l: "length params = 1"
      by (auto simp: irc_JOIN_def raises_def split: if_splits)
    then obtain c where p: "params = [c]"
      by (cases params) auto
    from that p obtain h acts exc where
      h: "parse prefix = Some h" "hm_nickname h \<noteq> nickname (config st)"
        "considerOpping fm st h c = (acts, exc)" "Mode ch s m n \<in> set acts"
      by (auto simp: irc_JOIN_def raises_def returns_def joined_def userJoined_def Let_def
          split: if_splits option.splits prod.splits)
    from considerOpping_Mode [OF h(3,4)] h(1,2) p show ?thesis by simp
  qed
  have query: "(case message of None \<Rightarrow> False | Some msg \<Rightarrow> ch \<in> set (py_split CHR '' '' msg))
      \<and> joined_opped st ch \<and> s \<and> m = ''o''
      \<and> map_option hm_nickname (parse user) = Some n \<and> target = nickname (config st)"
    if "Mode ch s m n \<in> set (emitted (ctcpQuery_OP fm st user target message))" for ch
  proof -
    from that obtain msg h acts exc where
      h: "message = Some msg" "parse user = Some h" "target = nickname (config st)"
        "consider_each fm st h (py_split CHR '' '' msg) = (acts, exc)"
        "Mode ch s m n \<in> set acts"
      by (auto simp: ctcpQuery_OP_def raises_def returns_def Let_def
          split: if_splits option.splits prod.splits)
    from consider_each_Mode [OF h(4,5)] h(1,2,3) show ?thesis by simp
  qed
  from join [of ch params] join [of ch "[channel]"] query [of ch] query [of channel]
  show ?thesis by blast
qed

lemma service_unopped_eq:
  "service_unopped =
     \<lparr>filename = ''bot.json'', config = decode example_document, currentServer = None,
      channelStates = [''#test'' \<mapsto> \<lparr>cs_name = ''#test'', cs_opped = False\<rparr>]\<rparr>"
  by (simp add: service_unopped_def example_service_def joinedChannel_def new_ChannelState_def)

lemma service_opped_eq:
  "service_opped =
     \<lparr>filename = ''bot.json'', config = decode example_document, currentServer = None,
      channelStates = [''#test'' \<mapsto> \<lparr>cs_name = ''#test'', cs_opped = True\<rparr>]\<rparr>"
  by (simp add: service_opped_def service_unopped_eq userOpped_def setOpped_def
      getChannelState_def decode_example_document)

lemmas client_defs =
  irc_JOIN_def ctcpQuery_OP_def considerOpping_def findOperatorCandidates_def getChannel_def
  getChannelState_def userJoined_def joined_def joinedChannel_def op_def match_def
  glob_fnmatch_def getHostmask_def returns_def raises_def quoted_def Let_def

lemma parse_alice:
  "parse ''alice!a@trusted.example''
     = Some \<lparr>hm_nickname = ''alice'', hm_username = ''a'', hm_hostname = ''trusted.example''\<rparr>"
  by (simp add: parse_def Let_def)

lemma alice_join_opped:
  "emitted (irc_JOIN glob_fnmatch service_opped ''alice!a@trusted.example'' [''#test''])
    = [Print ''>>> alice has joined #test'',
       Print ''>>> Considering giving op to alice on #test'',
       Print (''>>> Found match for alice: '' @ quoted ''alice!a@trusted.example''
              @ '' matched '' @ quoted ''alice!*@trusted.example''
              @ '' for bot user '' @ quoted ''alice''),
       Mode ''#test'' True ''o'' ''alice'']"
  by (simp add: client_defs service_opped_eq decode_example_document parse_alice alice_def)

lemma service_opped_states:
  "joined_opped service_opped ''#test''" "\<not> joined_opped service_opped ''#ops''"
  "\<not> joined_opped service_unopped ''#test''"
  by (simp_all add: joined_opped_def service_opped_eq service_unopped_eq)

theorem op_only_when_joined_opped_witness:
  "Mode ''#test'' True ''o'' ''alice''
     \<in> set (emitted (irc_JOIN glob_fnmatch service_opped ''alice!a@trusted.example'' [''#test'']))
   \<and> joined_opped service_opped ''#test''
   \<and> \<not> joined_opped service_opped ''#ops''
   \<and> Mode ''#test'' True ''o'' ''alice''
     \<notin> set (emitted (irc_JOIN glob_fnmatch service_opped ''alice!a@trusted.example''
                 [''#ops'']))
   \<and> Mode ''#ops'' True ''o'' ''alice''
     \<notin> set (emitted (irc_JOIN glob_fnmatch service_opped ''alice!a@trusted.example''
                 [''#ops'']))
   \<and> Mode ''#ops'' True ''o'' ''alice''
     \<notin> set (emitted (ctcpQuery_OP glob_fnmatch service_opped ''alice!a@trusted.example''
                 ''bot'' (Some ''#test #ops'')))
   \<and> \<not> joined_opped service_unopped ''#test''
   \<and> Mode ''#test'' True ''o'' ''alice''
     \<notin> set (emitted (irc_JOIN glob_fnmatch service_unopped ''alice!a@trusted.example''
                 [''#test'']))"
proof -
  have a: "Mode ''#test'' True ''o'' ''alice''
     \<in> set (emitted (irc_JOIN glob_fnmatch service_opped ''alice!a@trusted.example'' [''#test'']))"
    by (simp add: alice_join_opped)
  from op_only_when_joined_opped
         [of "''#test''" True "''o''" "''alice''" glob_fnmatch service_opped
             "''alice!a@trusted.example''" "[''#test'']" "''alice!a@trusted.example''"
             "''bot''" "Some ''#test #ops''" "''#ops''"]
       op_only_when_joined_opped
         [of "''#ops''" True "''o''" "''alice''" glob_fnmatch service_opped
             "''alice!a@trusted.example''" "[''#ops'']" "''alice!a@trusted.example''"
             "''bot''" "Some ''#test #ops''" "''#ops''"]
       op_only_when_joined_opped
         [of "''#test''" True "''o''" "''alice''" glob_fnmatch service_unopped
             "''alice!a@trusted.example''" "[''#test'']" "''alice!a@trusted.example''"
             "''bot''" "Some ''#test #ops''" "''#test''"]
       a service_opped_states
  show ?thesis by blast
qed

section \<open>A prefix that is no hostmask\<close>


text \<open>
  A join whose prefix is no hostmask is not ignored either: \<^verbatim>\<open>irc_JOIN\<close> asks the
  result of \<^verbatim>\<open>Hostmask.parse\<close> for its nickname without the test its siblings make.
\<close>

lemma irc_JOIN_unparseable_prefix:
  "parse prefix = None \<Longrightarrow> irc_JOIN fm st prefix [channel] = raises st [] AttributeError"
  by (simp add: irc_JOIN_def)

text \<open>
  Whatever the prefix, a mode change whose first argument is a word and which has an
  argument \<^verbatim>\<open>None\<close> ends with \<^verbatim>\<open>TypeError\<close>, nothing printed and no mode letter processed.
\<close>

lemma those_None: "None \<in> set xs \<Longrightarrow> those xs = None"
  by (induction xs) (auto split: option.splits)

lemma modeChanged_None_argument:
  "args \<noteq> [] \<Longrightarrow> args ! 0 \<noteq> None \<Longrightarrow> args ! 0 \<noteq> Some [] \<Longrightarrow> None \<in> set args \<Longrightarrow>
     modeChanged st user channel added modes args = raises st [] TypeError"
  by (auto simp: modeChanged_def mode_line_def those_None Let_def)




section \<open>What the decoder keeps of a document\<close>

lemma wf_registry_registerUser:
  "wf_registry reg \<Longrightarrow> u_mask u \<notin> invalid_user_masks \<Longrightarrow> u_userClass u \<in> valid_user_classes
     \<Longrightarrow> wf_registry (registerUser reg u)"
  by (auto simp: wf_registry_def registerUser_def distinct_update update_conv')

lemma wf_registry_decode_users:
  "wf_registry (userRegistry cfg) \<Longrightarrow> wf_registry (userRegistry (decode_users us cfg))"
proof (induction us arbitrary: cfg)
  case Nil
  then show ?case by simp
next
  case (Cons u us)
  have w: "\<And>m. userRegistry (appendWarningMessage cfg m) = userRegistry cfg"
    by (simp add: appendWarningMessage_def)
  have a: "\<And>c x. wf_registry (userRegistry c) \<Longrightarrow> u_mask x \<notin> invalid_user_masks \<Longrightarrow>
                u_userClass x \<in> valid_user_classes \<Longrightarrow> wf_registry (userRegistry (addUser c x))"
    by (simp add: addUser_def wf_registry_registerUser)
  show ?case
    using Cons.prems
    by (auto simp: w valid_user_classes_def split: option.splits intro!: Cons.IH a)
qed

lemma frame_decode_servers:
  "userRegistry (decode_servers ss cfg) = userRegistry cfg"
  "channels (decode_servers ss cfg) = channels cfg"
  "valid (decode_servers ss cfg) = valid cfg"
  by (induction ss arbitrary: cfg)
     (auto simp: Let_def addServer_def appendWarningMessage_def split: option.splits)

lemma frame_decode_users:
  "servers (decode_users us cfg) = servers cfg"
  "channels (decode_users us cfg) = channels cfg"
  "valid (decode_users us cfg) = valid cfg"
  by (induction us arbitrary: cfg)
     (auto simp: Let_def addUser_def appendWarningMessage_def split: option.splits)

lemma frame_decode_operators:
  "decode_operators ops cfg acc = (cfg', acc') \<Longrightarrow>
     userRegistry cfg' = userRegistry cfg \<and> servers cfg' = servers cfg
     \<and> channels cfg' = channels cfg \<and> valid cfg' = valid cfg"
  by (induction ops arbitrary: cfg acc)
     (auto simp: findUser_def appendWarningMessage_def split: option.splits)

lemma frame_decode_channels:
  "userRegistry (decode_channels cs cfg) = userRegistry cfg"
  "servers (decode_channels cs cfg) = servers cfg"
  "valid (decode_channels cs cfg) = valid cfg"
  by (induction cs arbitrary: cfg)
     (auto simp: Let_def addChannel_def appendWarningMessage_def
           split: option.splits prod.splits dest!: frame_decode_operators)


lemma frame_check_bot:
  "userRegistry (check_bot b cfg) = userRegistry cfg"
  "servers (check_bot b cfg) = servers cfg"
  "channels (check_bot b cfg) = channels cfg"
  "warningMessages (check_bot b cfg) = warningMessages cfg"
  "valid (check_bot b cfg) \<longleftrightarrow>
     valid cfg \<and> bot_nickname b \<noteq> None \<and> bot_username b \<noteq> None \<and> bot_realname b \<noteq> None"
  "valid (check_bot b cfg) \<Longrightarrow> check_bot b cfg = cfg"
  by (auto simp: check_bot_def Let_def invalidate_def appendErrorMessage_def)

lemma has_all_keys:
  "(\<forall>k \<in> set required_keys. has_key obj k) \<longleftrightarrow>
     d_bot obj \<noteq> None \<and> d_servers obj \<noteq> None \<and> d_users obj \<noteq> None \<and> d_channels obj \<noteq> None"
  by (simp add: required_keys_def has_key_def)

text \<open>The three ways through \<^verbatim>\<open>decode\<close>.\<close>

lemma decode_cases:
  obtains
    (sections) "\<exists>k \<in> set required_keys. \<not> has_key obj k"
      "decode obj = fold (check_key obj) required_keys new_Configuration"
  | (bot) b ss us cs where
      "d_bot obj = Some b" "d_servers obj = Some ss" "d_users obj = Some us"
      "d_channels obj = Some cs"
      "bot_nickname b = None \<or> bot_username b = None \<or> bot_realname b = None"
      "decode obj = check_bot b new_Configuration"
  | (full) b ss us cs n u r where
      "d_bot obj = Some b" "d_servers obj = Some ss" "d_users obj = Some us"
      "d_channels obj = Some cs"
      "bot_nickname b = Some n" "bot_username b = Some u" "bot_realname b = Some r"
      "decode obj = decode_channels cs (decode_users us (decode_servers ss
                      (new_Configuration\<lparr>nickname := n, username := u, realname := r\<rparr>)))"
proof (cases "\<forall>k \<in> set required_keys. has_key obj k")
  case False
  then have "decode obj = fold (check_key obj) required_keys new_Configuration"
    by (simp add: decode_def fold_check_key Let_def)
  with False sections show ?thesis by blast
next
  case True
  then obtain b ss us cs where p: "d_bot obj = Some b" "d_servers obj = Some ss"
      "d_users obj = Some us" "d_channels obj = Some cs"
    by (auto simp: has_all_keys)
  have f: "fold (check_key obj) required_keys new_Configuration = new_Configuration"
    using True by (simp add: fold_check_key new_Configuration_def)
  show ?thesis
  proof (cases "valid (check_bot b new_Configuration)")
    case False
    then have "decode obj = check_bot b new_Configuration"
      using p f by (simp add: decode_def Let_def new_Configuration_def)
    moreover from False
    have "bot_nickname b = None \<or> bot_username b = None \<or> bot_realname b = None"
      by (auto simp: frame_check_bot(5) new_Configuration_def)
    ultimately show ?thesis using p bot by blast
  next
    case v: True
    then obtain n u r where q: "bot_nickname b = Some n" "bot_username b = Some u"
        "bot_realname b = Some r"
      by (auto simp: frame_check_bot(5))
    have "decode obj = decode_channels cs (decode_users us (decode_servers ss
                      (new_Configuration\<lparr>nickname := n, username := u, realname := r\<rparr>)))"
      using p q f v by (simp add: decode_def Let_def frame_check_bot(6) new_Configuration_def)
    with p q full show ?thesis by blast
  qed
qed

lemma valid_new_Configuration [simp]:
  "valid (new_Configuration\<lparr>nickname := n, username := u, realname := r\<rparr>)"
  "userRegistry (new_Configuration\<lparr>nickname := n, username := u, realname := r\<rparr>) = []"
  "servers (new_Configuration\<lparr>nickname := n, username := u, realname := r\<rparr>) = []"
  "channels (new_Configuration\<lparr>nickname := n, username := u, realname := r\<rparr>) = []"
  "warningMessages (new_Configuration\<lparr>nickname := n, username := u, realname := r\<rparr>) = []"
  by (simp_all add: new_Configuration_def)

lemma wf_registry_Nil [simp]: "wf_registry []"
  by (simp add: wf_registry_def)

lemma wf_registry_decode: "wf_registry (userRegistry (decode obj))"
proof (cases obj rule: decode_cases)
  case sections
  then show ?thesis by (simp add: fold_check_key new_Configuration_def)
next
  case (bot b ss us cs)
  then show ?thesis by (simp add: frame_check_bot new_Configuration_def)
next
  case (full b ss us cs n u r)
  then show ?thesis
    by (simp add: frame_decode_channels wf_registry_decode_users frame_decode_servers)
qed

lemma invalid_decode_no_warnings:
  "\<not> valid (decode obj) \<Longrightarrow> warningMessages (decode obj) = []"
proof (cases obj rule: decode_cases)
  case sections
  then show ?thesis by (simp add: fold_check_key new_Configuration_def)
next
  case (bot b ss us cs)
  then show ?thesis by (simp add: frame_check_bot new_Configuration_def)
next
  case (full b ss us cs n u r)
  assume "\<not> valid (decode obj)"
  with full show ?thesis
    by (simp add: frame_decode_channels frame_decode_users frame_decode_servers)
qed

lemma subset_add_mset_right: "A \<subseteq># B \<Longrightarrow> A \<subseteq># add_mset x B"
  by (metis add_mset_add_single mset_subset_eq_add_left subset_mset.order_trans)

lemma warnings_decode_servers:
  "mset ws \<subseteq># mset (warningMessages cfg) \<Longrightarrow>
     mset ws \<subseteq># mset (warningMessages (decode_servers ss cfg))"
  by (induction ss arbitrary: cfg)
     (auto simp: Let_def addServer_def appendWarningMessage_def subset_add_mset_right
           split: option.splits)

lemma warnings_decode_operators:
  "decode_operators ops cfg acc = (cfg', acc') \<Longrightarrow>
     mset ws \<subseteq># mset (warningMessages cfg) \<Longrightarrow> mset ws \<subseteq># mset (warningMessages cfg')"
proof (induction ops arbitrary: cfg acc)
  case Nil
  then show ?case by simp
next
  case (Cons x ops)
  show ?case
  proof (cases "findUser cfg x")
    case None
    with Cons.prems
    have "decode_operators ops (appendWarningMessage cfg (''Unknown operator '' @ quoted x)) acc
            = (cfg', acc')"
      by simp
    from Cons.IH [OF this] Cons.prems(2) show ?thesis
      by (simp add: appendWarningMessage_def subset_add_mset_right)
  next
    case (Some user)
    with Cons.prems have "decode_operators ops cfg (List.insert user acc) = (cfg', acc')"
      by simp
    from Cons.IH [OF this] Cons.prems(2) show ?thesis by simp
  qed
qed

lemma warnings_decode_channels:
  "mset ws \<subseteq># mset (warningMessages cfg) \<Longrightarrow>
     mset ws \<subseteq># mset (warningMessages (decode_channels cs cfg))"
proof (induction cs arbitrary: cfg)
  case Nil
  then show ?case by simp
next
  case (Cons c cs)
  show ?case
  proof (cases "ce_name c")
    case None
    with Cons.prems
      Cons.IH [of "appendWarningMessage cfg ''Ignored channel-entry due to lack of name.''"]
    show ?thesis by (simp add: appendWarningMessage_def subset_add_mset_right)
  next
    case (Some name)
    show ?thesis
    proof (cases "ce_operators c")
      case None
      with Some Cons.prems Cons.IH [of "addChannel cfg \<lparr>ch_name = name, ch_operators = []\<rparr>"]
      show ?thesis by (simp add: addChannel_def)
    next
      case ops: (Some ops)
      obtain cfg' operators where d: "decode_operators ops cfg [] = (cfg', operators)"
        by (cases "decode_operators ops cfg []")
      from warnings_decode_operators [OF d Cons.prems]
      have "mset ws \<subseteq># mset (warningMessages
                (addChannel cfg' \<lparr>ch_name = name, ch_operators = operators\<rparr>))"
        by (simp add: addChannel_def)
      from Cons.IH [OF this] Some ops d show ?thesis by simp
    qed
  qed
qed

lemma warnings_decode_users:
  "mset ws \<subseteq># mset (warningMessages cfg) \<Longrightarrow>
     mset (map skip_warning (filter has_universal_mask us)) + mset ws
       \<subseteq># mset (warningMessages (decode_users us cfg))"
proof (induction us arbitrary: cfg ws)
  case Nil
  then show ?case by simp
next
  case (Cons u us)
  let ?goal = "\<lambda>c. mset (map skip_warning (filter has_universal_mask (u # us))) + mset ws
                \<subseteq># mset (warningMessages (decode_users us c))"
  have keep: "?goal c"
    if "\<not> has_universal_mask u" "mset ws \<subseteq># mset (warningMessages c)" for c
    using Cons.IH [OF that(2)] that(1) by simp
  have more: "mset ws \<subseteq># mset (warningMessages (appendWarningMessage cfg m))" for m
    using Cons.prems by (simp add: appendWarningMessage_def subset_add_mset_right)
  have skip: "?goal (appendWarningMessage cfg (skip_warning u))"
  proof (cases "has_universal_mask u")
    case True
    have "mset (skip_warning u # ws)
            \<subseteq># mset (warningMessages (appendWarningMessage cfg (skip_warning u)))"
      using Cons.prems by (simp add: appendWarningMessage_def)
    from Cons.IH [OF this] True show ?thesis by simp
  next
    case False
    then show ?thesis by (rule keep) (rule more)
  qed
  have au: "warningMessages (addUser c x) = warningMessages c" for c x
    by (simp add: addUser_def)
  show ?case
  proof (cases "ue_name u")
    case None
    then have "decode_users (u # us) cfg
                 = decode_users us (appendWarningMessage cfg (skip_warning u))"
      by (simp add: skip_warning_def)
    with skip show ?thesis by simp
  next
    case name: (Some name)
    show ?thesis
    proof (cases "ue_mask u")
      case None
      then have n: "\<not> has_universal_mask u" by (simp add: has_universal_mask_def)
      from name None have "decode_users (u # us) cfg
          = decode_users us (appendWarningMessage cfg ''Ignored user-entry due to lack of mask.'')"
        by simp
      with keep [OF n more] show ?thesis by simp
    next
      case (Some pattern)
      show ?thesis
      proof (cases "pattern \<in> invalid_user_masks")
        case True
        with name Some have "decode_users (u # us) cfg
                 = decode_users us (appendWarningMessage cfg (skip_warning u))"
          by (simp add: skip_warning_def)
        with skip show ?thesis by simp
      next
        case False
        with Some have n: "\<not> has_universal_mask u" by (simp add: has_universal_mask_def)
        have "\<exists>c. decode_users (u # us) cfg = decode_users us c
                  \<and> mset ws \<subseteq># mset (warningMessages c)"
        proof (cases "ue_class u")
          case None
          with name Some False have "decode_users (u # us) cfg = decode_users us
              (addUser cfg \<lparr>u_name = name, u_mask = pattern, u_userClass = ''user''\<rparr>)"
            by simp
          with Cons.prems show ?thesis by (metis au)
        next
          case cls: (Some cls)
          show ?thesis
          proof (cases "cls \<in> valid_user_classes")
            case True
            with name Some False cls have "decode_users (u # us) cfg = decode_users us
                (addUser cfg \<lparr>u_name = name, u_mask = pattern, u_userClass = cls\<rparr>)"
              by simp
            with Cons.prems show ?thesis by (metis au)
          next
            case bad: False
            with name Some False cls have "decode_users (u # us) cfg = decode_users us
                (addUser (appendWarningMessage cfg
                            (''Ignoring invalid class '' @ quoted cls @ ''.''))
                   \<lparr>u_name = name, u_mask = pattern, u_userClass = ''user''\<rparr>)"
              by simp
            with more show ?thesis by (metis au)
          qed
        qed
        then obtain c where
          c: "decode_users (u # us) cfg = decode_users us c"
            "mset ws \<subseteq># mset (warningMessages c)"
          by blast
        from keep [OF n c(2)] c(1) show ?thesis by simp
      qed
    qed
  qed
qed

text \<open>
  C4 (counterexample). The example document without its sections \<^verbatim>\<open>bot\<close> and
  \<^verbatim>\<open>servers\<close> still lists the user \<^verbatim>\<open>eve\<close> with the mask \<^verbatim>\<open>*\<close>; the decoder returns after
  the sanity check and records no warning at all.
\<close>

theorem universal_mask_without_warning:
  "d_users document_without_sections = Some example_users
   \<and> \<lparr>ue_name = Some ''eve'', ue_mask = Some ''*'', ue_class = None\<rparr> \<in> set example_users
   \<and> ''*'' \<in> invalid_user_masks
   \<and> warningMessages (decode document_without_sections) = []"
proof -
  have "d_users document_without_sections = Some example_users"
    by (simp add: document_without_sections_def example_document_def)
  moreover have "\<lparr>ue_name = Some ''eve'', ue_mask = Some ''*'', ue_class = None\<rparr>
                   \<in> set example_users"
    by (simp add: example_users_def)
  moreover have "''*'' \<in> invalid_user_masks"
    by (simp add: invalid_user_masks_def)
  moreover have "warningMessages (decode document_without_sections) = []"
    by (simp add: decode_document_without_sections new_Configuration_def)
  ultimately show ?thesis by blast
qed

text \<open>
  C4 (amended). For every document, no user of the decoded registry has a universally
  matching mask, so an entry with such a mask is never added; and when the document passes
  the checks of its sections and of \<^verbatim>\<open>bot\<close> (the result is valid), the warnings recorded
  contain one warning for each such entry of the \<^verbatim>\<open>users\<close> section, with multiplicity.
  A document that does not pass those checks records no warning.
\<close>

theorem universal_masks_skipped:
  "(u \<in> set (getUsers (decode obj)) \<longrightarrow> u_mask u \<notin> invalid_user_masks)
   \<and> (valid (decode obj) \<and> d_users obj = Some us \<longrightarrow>
         mset (map skip_warning (filter has_universal_mask us))
           \<subseteq># mset (warningMessages (decode obj)))
   \<and> (\<not> valid (decode obj) \<longrightarrow> warningMessages (decode obj) = [])"
proof (intro conjI impI)
  assume "\<not> valid (decode obj)"
  then show "warningMessages (decode obj) = []"
    by (rule invalid_decode_no_warnings)
next
  assume "u \<in> set (getUsers (decode obj))"
  then obtain k where "(k, u) \<in> set (userRegistry (decode obj))"
    by (auto simp: getUsers_def)
  with wf_registry_decode [of obj] show "u_mask u \<notin> invalid_user_masks"
    by (auto simp: wf_registry_def)
next
  assume a: "valid (decode obj) \<and> d_users obj = Some us"
  show "mset (map skip_warning (filter has_universal_mask us))
          \<subseteq># mset (warningMessages (decode obj))"
  proof (cases obj rule: decode_cases)
    case sections
    with a show ?thesis by (simp add: fold_check_key new_Configuration_def)
  next
    case (bot b ss us' cs)
    with a show ?thesis by (auto simp: frame_check_bot(5))
  next
    case (full b ss us' cs n u r)
    have "mset [] \<subseteq># mset (warningMessages (decode_servers ss
             (new_Configuration\<lparr>nickname := n, username := u, realname := r\<rparr>)))"
      by simp
    from warnings_decode_users [OF this, of us]
    have "mset (map skip_warning (filter has_universal_mask us))
        \<subseteq># mset (warningMessages (decode_users us (decode_servers ss
             (new_Configuration\<lparr>nickname := n, username := u, realname := r\<rparr>))))"
      by simp
    then have "mset (map skip_warning (filter has_universal_mask us))
        \<subseteq># mset (warningMessages (decode_channels cs (decode_users us (decode_servers ss
             (new_Configuration\<lparr>nickname := n, username := u, realname := r\<rparr>)))))"
      by (rule warnings_decode_channels
            [where ws = "map skip_warning (filter has_universal_mask us)"])
    with full a show ?thesis by simp
  qed
qed

theorem universal_masks_skipped_witness:
  "alice \<in> set (getUsers (decode example_document))
   \<and> u_mask alice \<notin> invalid_user_masks
   \<and> valid (decode example_document)
   \<and> d_users example_document = Some example_users
   \<and> {#''Insecure mask for user '' @ quoted ''eve''#}
       \<subseteq># mset (warningMessages (decode example_document))"
proof -
  have a: "alice \<in> set (getUsers (decode example_document))"
    by (simp add: decode_example_document getUsers_def)
  have "valid (decode example_document)"
    by (simp add: decode_example_document)
  moreover have "d_users example_document = Some example_users"
    by (simp add: example_document_def)
  ultimately
  have b: "valid (decode example_document) \<and> d_users example_document = Some example_users"
    by blast
  have c: "map skip_warning (filter has_universal_mask example_users)
             = [''Insecure mask for user '' @ quoted ''eve'']"
    by (simp add: example_users_def has_universal_mask_def skip_warning_def
        invalid_user_masks_def)
  from universal_masks_skipped [of alice example_document example_users] a b
  show ?thesis unfolding c by simp
qed

section \<open>Encoding and decoding again\<close>

lemma decode_servers_encoded:
  "decode_servers (map encode_server xs) cfg = cfg\<lparr>servers := servers cfg @ xs\<rparr>"
  by (induction xs arbitrary: cfg) (simp_all add: encode_server_def addServer_def Let_def)

lemma User_rebuild [simp]:
  "\<lparr>u_name = u_name a, u_mask = u_mask a, u_userClass = u_userClass a\<rparr> = a"
  by (cases a) simp

lemma decode_users_encoded:
  "\<forall>u \<in> set xs. u_mask u \<notin> invalid_user_masks \<and> u_userClass u \<in> valid_user_classes \<Longrightarrow>
   decode_users (map encode_user xs) cfg
     = cfg\<lparr>userRegistry := fold (\<lambda>u r. registerUser r u) xs (userRegistry cfg)\<rparr>"
  by (induction xs arbitrary: cfg) (simp_all add: encode_user_def addUser_def)

lemma map_of_fold_registerUser_out:
  "k \<notin> u_name ` set xs \<Longrightarrow>
     map_of (fold (\<lambda>u r. registerUser r u) xs reg) k = map_of reg k"
  by (induction xs arbitrary: reg) (simp_all add: registerUser_def update_conv')

lemma map_of_fold_registerUser_in:
  "distinct (map u_name xs) \<Longrightarrow> u \<in> set xs \<Longrightarrow>
     map_of (fold (\<lambda>u r. registerUser r u) xs reg) (u_name u) = Some u"
proof (induction xs arbitrary: reg)
  case Nil
  then show ?case by simp
next
  case (Cons x xs)
  show ?case
  proof (cases "u \<in> set xs")
    case True
    with Cons.IH [of "registerUser reg x"] Cons.prems show ?thesis by simp
  next
    case False
    with Cons.prems have "u = x" and "u_name x \<notin> u_name ` set xs" by auto
    then have "map_of (fold (\<lambda>u r. registerUser r u) xs (registerUser reg x)) (u_name x)
                 = map_of (registerUser reg x) (u_name x)"
      by (simp add: map_of_fold_registerUser_out)
    with \<open>u = x\<close> show ?thesis
      by (simp add: registerUser_def update_conv')
  qed
qed

lemma ex_preimage_list:
  assumes "mset us = mset (map f ys)" and "inj f"
  shows "\<exists>xs. us = map f xs \<and> mset xs = mset ys"
proof (intro exI conjI)
  from assms(1) have "set us = set (map f ys)"
    by (rule mset_eq_setD)
  then have r: "\<forall>e \<in> set us. e \<in> range f"
    by auto
  show "us = map f (map (inv f) us)"
    using r by (induction us) (auto simp: f_inv_into_f)
  have "mset (map (inv f) us) = image_mset (inv f) (mset (map f ys))"
    using assms(1) by simp
  also have "\<dots> = mset ys"
    using assms(2) by (simp add: multiset.map_comp comp_def)
  finally show "mset (map (inv f) us) = mset ys" .
qed

lemma inj_encode_user: "inj encode_user"
  by (rule injI) (simp add: encode_user_def)


lemma set_decode_operators:
  "decode_operators ops cfg acc = (cfg', acc') \<Longrightarrow>
     set acc' = set acc \<union> {u. \<exists>x \<in> set ops. map_of (userRegistry cfg) x = Some u}"
proof (induction ops arbitrary: cfg acc)
  case Nil
  then show ?case by simp
next
  case (Cons x ops)
  show ?case
  proof (cases "findUser cfg x")
    case None
    with Cons.prems
    have "decode_operators ops (appendWarningMessage cfg (''Unknown operator '' @ quoted x)) acc
            = (cfg', acc')"
      by simp
    from Cons.IH [OF this] None show ?thesis
      by (auto simp: appendWarningMessage_def findUser_def)
  next
    case (Some user)
    with Cons.prems have "decode_operators ops cfg (List.insert user acc) = (cfg', acc')"
      by simp
    from Cons.IH [OF this] Some show ?thesis
      by (auto simp: findUser_def)
  qed
qed

lemma decode_channels_views:
  "map channel_view (channels (decode_channels cs cfg))
     = map channel_view (channels cfg)
       @ List.map_filter (view_target (userRegistry cfg)) (map entry_view cs)"
proof (induction cs arbitrary: cfg)
  case Nil
  then show ?case by (simp add: map_filter_simps)
next
  case (Cons c cs)
  show ?case
  proof (cases "ce_name c")
    case None
    with Cons.IH [of "appendWarningMessage cfg ''Ignored channel-entry due to lack of name.''"]
    show ?thesis
      by (simp add: appendWarningMessage_def map_filter_simps entry_view_def view_target_def)
  next
    case (Some name)
    show ?thesis
    proof (cases "ce_operators c")
      case None
      with Some Cons.IH [of "addChannel cfg \<lparr>ch_name = name, ch_operators = []\<rparr>"]
      show ?thesis
        by (simp add: addChannel_def map_filter_simps entry_view_def view_target_def
            channel_view_def)
    next
      case ops: (Some ops)
      obtain cfg' operators where d: "decode_operators ops cfg [] = (cfg', operators)"
        by (cases "decode_operators ops cfg []")
      from frame_decode_operators [OF d]
      have f: "userRegistry cfg' = userRegistry cfg" "channels cfg' = channels cfg"
        by simp_all
      from set_decode_operators [OF d]
      have o: "set operators = {u. \<exists>x \<in> set ops. map_of (userRegistry cfg) x = Some u}"
        by simp
      from Some ops d f o
        Cons.IH [of "addChannel cfg' \<lparr>ch_name = name, ch_operators = operators\<rparr>"]
      show ?thesis
        by (simp add: addChannel_def map_filter_simps entry_view_def view_target_def
            channel_view_def)
    qed
  qed
qed

lemma mset_map_filter_cong:
  "mset xs = mset ys \<Longrightarrow> mset (List.map_filter f xs) = mset (List.map_filter f ys)"
  by (simp add: map_filter_def mset_filter [symmetric] del: mset_filter)
     (metis mset_filter mset_map)

lemma map_filter_map_Some:
  "\<forall>x \<in> set xs. f (g x) = Some (k x) \<Longrightarrow> List.map_filter f (map g xs) = map k xs"
  by (induction xs) (simp_all add: map_filter_simps)


lemma set_map_filter:
  "y \<in> set (List.map_filter f xs) \<longleftrightarrow> (\<exists>x \<in> set xs. f x = Some y)"
  by (induction xs) (auto simp: map_filter_simps split: option.splits)

lemma decode_full:
  assumes "d_bot obj = Some b" "d_servers obj = Some ss" "d_users obj = Some us"
    "d_channels obj = Some cs"
    "bot_nickname b = Some n" "bot_username b = Some u" "bot_realname b = Some r"
  shows "decode obj = decode_channels cs (decode_users us (decode_servers ss
                      (new_Configuration\<lparr>nickname := n, username := u, realname := r\<rparr>)))"
proof (cases obj rule: decode_cases)
  case sections
  have "\<forall>k \<in> set required_keys. has_key obj k"
    using assms by (simp add: has_all_keys)
  with sections show ?thesis by blast
next
  case (bot b' ss' us' cs')
  with assms show ?thesis by auto
next
  case (full b' ss' us' cs' n' u' r')
  with assms show ?thesis by simp
qed

lemma operators_registered:
  assumes "ch \<in> set (channels (decode d))" and "u \<in> set (ch_operators ch)"
  shows "map_of (userRegistry (decode d)) (u_name u) = Some u"
proof (cases d rule: decode_cases)
  case sections
  with assms show ?thesis by (simp add: fold_check_key new_Configuration_def)
next
  case (bot b ss us cs)
  with assms show ?thesis by (simp add: frame_check_bot new_Configuration_def)
next
  case (full b ss us cs n un r)
  define cfg where "cfg = decode_users us (decode_servers ss
                      (new_Configuration\<lparr>nickname := n, username := un, realname := r\<rparr>))"
  have d: "decode d = decode_channels cs cfg"
    using full by (simp add: cfg_def)
  have reg: "userRegistry (decode d) = userRegistry cfg"
    by (simp add: d frame_decode_channels)
  have "channels cfg = []"
    by (simp add: cfg_def frame_decode_users frame_decode_servers)
  with decode_channels_views [of cs cfg]
  have "map channel_view (channels (decode d))
          = List.map_filter (view_target (userRegistry cfg)) (map entry_view cs)"
    by (simp add: d)
  moreover from assms(1) have "channel_view ch \<in> set (map channel_view (channels (decode d)))"
    by simp
  ultimately obtain v where "view_target (userRegistry cfg) v = Some (channel_view ch)"
    by (metis set_map_filter)
  with assms(2) have "\<exists>x. map_of (userRegistry cfg) x = Some u"
    by (cases v) (auto simp: view_target_def channel_view_def split: option.splits)
  then obtain x where "map_of (userRegistry cfg) x = Some u" ..
  with wf_registry_decode [of d] show ?thesis
    by (auto simp: reg wf_registry_def)
qed


lemma wf_registry_entries:
  assumes "wf_registry reg" and "(k, u) \<in> set reg"
  shows "u_name u = k" and "u_mask u \<notin> invalid_user_masks"
    and "u_userClass u \<in> valid_user_classes" and "map_of reg k = Some u"
proof -
  from assms have m: "map_of reg k = Some u"
    by (simp add: wf_registry_def)
  with assms(1) show "u_name u = k" and "u_mask u \<notin> invalid_user_masks"
    and "u_userClass u \<in> valid_user_classes" and "map_of reg k = Some u"
    by (auto simp: wf_registry_def)
qed

lemma reregistered:
  assumes wf: "wf_registry reg" and p: "mset xs = mset (map snd reg)"
  shows "map_of (fold (\<lambda>u r. registerUser r u) xs []) = map_of reg"
proof
  fix k
  have names: "map u_name (map snd reg) = map fst reg"
    using wf_registry_entries(1) [OF wf] by (induction reg) auto
  have "mset (map u_name xs) = mset (map fst reg)"
    using p names by (metis mset_map)
  then have dist: "distinct (map u_name xs)"
    using wf by (metis wf_registry_def mset_eq_imp_distinct_iff)
  have sets: "set xs = snd ` set reg"
    using mset_eq_setD [OF p] by simp
  show "map_of (fold (\<lambda>u r. registerUser r u) xs []) k = map_of reg k"
  proof (cases "map_of reg k")
    case None
    then have "k \<notin> fst ` set reg"
      by (simp add: map_of_eq_None_iff)
    moreover have "u_name ` set xs = fst ` set reg"
      using sets wf_registry_entries(1) [OF wf] by force
    ultimately have "k \<notin> u_name ` set xs" by simp
    with None show ?thesis by (simp add: map_of_fold_registerUser_out)
  next
    case (Some u)
    then have "(k, u) \<in> set reg" by (rule map_of_SomeD)
    with sets wf_registry_entries(1) [OF wf this] have "u \<in> set xs" "u_name u = k"
      by force+
    with map_of_fold_registerUser_in [OF dist, of u "[]"] Some show ?thesis by simp
  qed
qed

text \<open>
  C7. Let \<open>c\<close> be a valid configuration produced by \<^verbatim>\<open>decode\<close>, and \<open>e\<close> a document that
  lists what \<^verbatim>\<open>encode\<close> writes for \<open>c\<close>, users, channels and operators in any order.
  Decoding \<open>e\<close> gives a valid configuration with the servers of \<open>c\<close>, in order, the same
  set of users, and the same channels, each with the same name and set of operators.
\<close>

theorem decode_encode_roundtrip:
  assumes v: "valid (decode d)" and sl: "same_listing e (encode (decode d))"
  shows "valid (decode e)
     \<and> servers (decode e) = servers (decode d)
     \<and> set (getUsers (decode e)) = set (getUsers (decode d))
     \<and> mset (map channel_view (channels (decode e)))
         = mset (map channel_view (channels (decode d)))"
proof -
  define c where "c = decode d"
  define reg where "reg = userRegistry c"
  have wf: "wf_registry reg"
    by (simp add: reg_def c_def wf_registry_decode)
  from sl have
    bot: "d_bot e = Some \<lparr>bot_nickname = Some (nickname c), bot_username = Some (username c),
                           bot_realname = Some (realname c)\<rparr>"
    and srv: "d_servers e = Some (map encode_server (servers c))"
    by (simp_all add: same_listing_def encode_def c_def)
  from sl obtain us where
    us: "d_users e = Some us" "mset us = mset (map encode_user (map snd reg))"
    by (cases "d_users e") (auto simp: same_listing_def encode_def c_def reg_def getUsers_def)
  from sl obtain cs where
    cs: "d_channels e = Some cs"
        "mset (map entry_view cs) = mset (map entry_view (map encode_channel (channels c)))"
    by (cases "d_channels e")
       (auto simp: same_listing_def encode_def c_def multiset.map_comp comp_def)
  from ex_preimage_list [OF us(2) inj_encode_user]
  obtain xs where xs: "us = map encode_user xs" "mset xs = mset (map snd reg)"
    by blast
  have good: "\<forall>u \<in> set xs. u_mask u \<notin> invalid_user_masks \<and> u_userClass u \<in> valid_user_classes"
    using mset_eq_setD [OF xs(2)] wf_registry_entries(2,3) [OF wf] by auto
  define cfg0 where
    "cfg0 = new_Configuration\<lparr>nickname := nickname c, username := username c,
                               realname := realname c\<rparr>"
  define cfgS where "cfgS = decode_servers (map encode_server (servers c)) cfg0"
  define cfgU where "cfgU = decode_users us cfgS"
  have e: "decode e = decode_channels cs cfgU"
    unfolding cfgU_def cfgS_def cfg0_def
    by (rule decode_full [OF bot srv us(1) cs(1)]) simp_all
  have S: "cfgS = cfg0\<lparr>servers := servers c\<rparr>"
    by (simp add: cfgS_def decode_servers_encoded cfg0_def)
  have "userRegistry cfgS = []"
    by (simp add: S cfg0_def new_Configuration_def)
  then have U: "cfgU = cfgS\<lparr>userRegistry := fold (\<lambda>u r. registerUser r u) xs []\<rparr>"
    using decode_users_encoded [OF good, of cfgS] by (simp add: cfgU_def xs(1))
  have regU: "map_of (userRegistry cfgU) = map_of reg"
    by (simp add: U reregistered [OF wf xs(2)])
  have rege: "userRegistry (decode e) = userRegistry cfgU"
    by (simp add: e frame_decode_channels)
  have 1: "valid (decode e)"
    by (simp add: e frame_decode_channels U S cfg0_def new_Configuration_def)
  have 2: "servers (decode e) = servers (decode d)"
    by (simp add: e frame_decode_channels U S c_def)
  have "wf_registry (userRegistry (decode e))"
    by (rule wf_registry_decode)
  then have "set (getUsers (decode e)) = ran (map_of (userRegistry (decode e)))"
    by (simp add: getUsers_def wf_registry_def ran_distinct)
  also have "\<dots> = ran (map_of reg)"
    by (simp add: rege regU)
  also have "\<dots> = set (getUsers (decode d))"
    using wf by (simp add: getUsers_def wf_registry_def ran_distinct reg_def c_def)
  finally have 3: "set (getUsers (decode e)) = set (getUsers (decode d))" .
  have "channels cfgU = []"
    by (simp add: U S cfg0_def new_Configuration_def)
  with decode_channels_views [of cs cfgU]
  have "map channel_view (channels (decode e))
          = List.map_filter (view_target (userRegistry cfgU)) (map entry_view cs)"
    by (simp add: e)
  then have "mset (map channel_view (channels (decode e)))
      = mset (List.map_filter (view_target (userRegistry cfgU))
                (map entry_view (map encode_channel (channels c))))"
    using mset_map_filter_cong [OF cs(2)] by simp
  also have "List.map_filter (view_target (userRegistry cfgU))
                (map entry_view (map encode_channel (channels c)))
             = map channel_view (channels c)"
  proof -
    have "view_target (userRegistry cfgU) (entry_view (encode_channel ch))
            = Some (channel_view ch)" if "ch \<in> set (channels c)" for ch
    proof -
      have "map_of reg (u_name u) = Some u" if "u \<in> set (ch_operators ch)" for u
        using operators_registered [of ch d u] that \<open>ch \<in> set (channels c)\<close>
        by (simp add: c_def reg_def)
      then have "{u. \<exists>x \<in> set (ch_operators ch). map_of reg (u_name x) = Some u}
                   = set (ch_operators ch)"
        by auto
      then show ?thesis
        by (simp add: view_target_def entry_view_def encode_channel_def channel_view_def regU)
    qed
    then have "List.map_filter (view_target (userRegistry cfgU))
                 (map (\<lambda>ch. entry_view (encode_channel ch)) (channels c))
               = map channel_view (channels c)"
      by (intro map_filter_map_Some) simp
    then show ?thesis by (simp add: comp_def)
  qed
  finally have 4: "mset (map channel_view (channels (decode e)))
                     = mset (map channel_view (channels (decode d)))"
    by (simp add: c_def)
  from 1 2 3 4 show ?thesis by blast
qed

theorem decode_encode_roundtrip_witness:
  "valid (decode example_document)
   \<and> same_listing reordered_document (encode (decode example_document))
   \<and> valid (decode reordered_document)
   \<and> servers (decode reordered_document) = servers (decode example_document)
   \<and> set (getUsers (decode reordered_document)) = set (getUsers (decode example_document))
   \<and> mset (map channel_view (channels (decode reordered_document)))
       = mset (map channel_view (channels (decode example_document)))"
proof -
  have v: "valid (decode example_document)"
    by (simp add: decode_example_document)
  have l: "same_listing reordered_document (encode (decode example_document))"
    by (simp add: decode_example_document same_listing_def encode_def reordered_document_def
        example_bot_def encode_server_def encode_user_def encode_channel_def entry_view_def
        getUsers_def alice_def bob_def)
  from decode_encode_roundtrip [OF v l] v l show ?thesis by blast
qed

end
